theory Spec2Isabelle
  imports Complex_Main
begin

section \<open>JavaScript strings\<close>

text \<open>
  A JavaScript string is a sequence of UTF-16 code units.  The kanji the parser looks
  for all lie in the Basic Multilingual Plane, so each is one code unit; a regular
  expression without the \<open>u\<close> flag works on code units as well.
\<close>

type_synonym jstring = "nat list"

definition ascii :: "string \<Rightarrow> jstring" where
  "ascii s = map of_char s"

text \<open>\<open>String(n)\<close> for a non-negative integer below \<open>10^21\<close> (decimal digits, no exponent).\<close>

fun decimal :: "nat \<Rightarrow> jstring" where
  "decimal n = (if n < 10 then [48 + n] else decimal (n div 10) @ [48 + n mod 10])"

declare decimal.simps [simp del]

text \<open>\<open>parts.join(sep)\<close> on an array of strings.\<close>

fun join :: "jstring \<Rightarrow> jstring list \<Rightarrow> jstring" where
  "join sep [] = []"
| "join sep [x] = x"
| "join sep (x # y # ys) = x @ sep @ join sep (y # ys)"

text \<open>The code units of the characters that occur in the source's string literals.\<close>

abbreviation (input) dai :: nat where "dai \<equiv> 31532"        \<comment> \<open>U+7B2C, the prefix of an article designator\<close>
abbreviation (input) jou :: nat where "jou \<equiv> 26465"        \<comment> \<open>U+6761, the suffix of an article designator\<close>
abbreviation (input) juu :: nat where "juu \<equiv> 21313"        \<comment> \<open>U+5341, ten\<close>
abbreviation (input) hyaku :: nat where "hyaku \<equiv> 30334"    \<comment> \<open>U+767E, hundred\<close>
abbreviation (input) sen :: nat where "sen \<equiv> 21315"        \<comment> \<open>U+5343, thousand\<close>
abbreviation (input) wideSpace :: nat where "wideSpace \<equiv> 12288"  \<comment> \<open>U+3000\<close>

section \<open>The numeral normalizer (parser.ts, normalizeArticleNum)\<close>

text \<open>The table \<open>kanjiNums\<close>: the digits one to nine, ten and hundred.\<close>

definition kanjiNums :: "nat \<Rightarrow> nat option" where
  "kanjiNums = map_of
     [(19968, 1), (20108, 2), (19977, 3), (22235, 4), (20116, 5), (20845, 6),
      (19971, 7), (20843, 8), (20061, 9), (juu, 10), (hyaku, 100)]"

text \<open>\<open>articleStr.match(/\d+/)\<close>: the leftmost maximal run of ASCII digits.\<close>

definition isDigit :: "nat \<Rightarrow> bool" where
  "isDigit c = (48 \<le> c \<and> c \<le> 57)"

definition matchDigits :: "jstring \<Rightarrow> jstring option" where
  "matchDigits s =
     (let r = dropWhile (\<lambda>c. \<not> isDigit c) s
      in if r = [] then None else Some (takeWhile isDigit r))"

text \<open>
  \<open>articleStr.match(/\<dots>(.+)\<dots>/)\<close> with the prefix U+7B2C and the suffix U+6761: the
  dot matches every code unit but a line terminator, the plus is greedy, and the
  match starts at the leftmost prefix character from which it can succeed.
  \<open>dotPlusJou r\<close> is the group captured when the prefix stands right before \<open>r\<close>.
\<close>

definition isLineTerminator :: "nat \<Rightarrow> bool" where
  "isLineTerminator c = (c = 10 \<or> c = 13 \<or> c = 8232 \<or> c = 8233)"

definition dotPlusJou :: "jstring \<Rightarrow> jstring option" where
  "dotPlusJou r =
     (let p = rev (dropWhile (\<lambda>c. c \<noteq> jou) (rev (takeWhile (\<lambda>c. \<not> isLineTerminator c) r)))
      in if 2 \<le> length p then Some (butlast p) else None)"

fun matchKanji :: "jstring \<Rightarrow> jstring option" where
  "matchKanji [] = None"
| "matchKanji (c # r) =
     (if c = dai
      then (case dotPlusJou r of Some k \<Rightarrow> Some k | None \<Rightarrow> matchKanji r)
      else matchKanji r)"

text \<open>
  The loop over \<open>kanjiPart\<close> with its two accumulators \<open>result\<close> and \<open>temp\<close>, and the
  final \<open>result += temp\<close>.  The source iterates over code points; a code point outside
  the Basic Multilingual Plane is two code units, neither of them in the table, so it
  is skipped either way.
\<close>

fun kanjiLoop :: "jstring \<Rightarrow> nat \<Rightarrow> nat \<Rightarrow> nat" where
  "kanjiLoop [] result temp = result + temp"
| "kanjiLoop (char # rest) result temp =
     (case kanjiNums char of
        None \<Rightarrow> kanjiLoop rest result temp
      | Some num \<Rightarrow>
          if num = 10 then kanjiLoop rest (result + (if temp = 0 then 10 else temp * 10)) 0
          else if num = 100 then kanjiLoop rest (result + (if temp = 0 then 100 else temp * 100)) 0
          else kanjiLoop rest result num)"

definition normalizeArticleNum :: "jstring \<Rightarrow> jstring" where
  "normalizeArticleNum articleStr =
     (case matchDigits articleStr of
        Some numMatch \<Rightarrow> numMatch
      | None \<Rightarrow>
          (case matchKanji articleStr of
             None \<Rightarrow> articleStr
           | Some kanjiPart \<Rightarrow> decimal (kanjiLoop kanjiPart 0 0)))"

text \<open>
  The conventional kanji rendering of a number below ten thousand, as the
  specification's round trip \<open>render_kanji\<close> understands it: for each of the thousands,
  hundreds and tens the digit followed by the multiplier, the digit left out when it
  is one, and the units digit last.  This definition follows the specification, not
  the source.
\<close>

definition kanjiDigit :: "nat \<Rightarrow> nat" where
  "kanjiDigit d = [19968, 20108, 19977, 22235, 20116, 20845, 19971, 20843, 20061] ! (d - 1)"

definition render_unit :: "nat \<Rightarrow> nat \<Rightarrow> jstring" where
  "render_unit m d = (if d = 0 then [] else if d = 1 then [m] else [kanjiDigit d, m])"

definition render_kanji :: "nat \<Rightarrow> jstring" where
  "render_kanji v =
     render_unit sen (v div 1000 mod 10) @ render_unit hyaku (v div 100 mod 10) @
     render_unit juu (v div 10 mod 10) @ (if v mod 10 = 0 then [] else [kanjiDigit (v mod 10)])"

definition designator :: "jstring \<Rightarrow> jstring" where
  "designator k = [dai] @ k @ [jou]"

section \<open>Decoded XML (the values fast-xml-parser returns)\<close>

text \<open>
  A JavaScript number is a double: a rational, an infinity or NaN (the two zeros are not
  told apart by any operation the source uses).  \<open>undefined\<close> is written \<open>None\<close>; the
  decoder never returns \<open>null\<close>.  An object is the list of its own properties in the
  order \<open>Object.values\<close> enumerates them, with distinct keys.
\<close>

datatype jsnum = NaN | PosInf | NegInf | Fin rat

datatype jval =
    JStr jstring
  | JNum jsnum
  | JBool bool
  | JArr "jval list"
  | JObj "(jstring \<times> jval) list"

text \<open>
  Library functions the source calls and this development takes as parameters:
  ECMAScript's conversion of a number to a string and of a string to a number,
  \<open>XMLParser.parse\<close>, which returns the decoded document or throws (\<open>Inl\<close>, with the
  message), and \<open>encodeURIComponent\<close>.
\<close>

record lib =
  NumberToString :: "jsnum \<Rightarrow> jstring"
  StringToNumber :: "jstring \<Rightarrow> jsnum"
  xmlParse :: "jstring \<Rightarrow> jstring + jval"
  encodeURIComponent :: "jstring \<Rightarrow> jstring"

fun truthy :: "jval \<Rightarrow> bool" where
  "truthy (JStr s) = (s \<noteq> [])"
| "truthy (JNum n) = (n \<noteq> NaN \<and> n \<noteq> Fin 0)"
| "truthy (JBool b) = b"
| "truthy (JArr xs) = True"
| "truthy (JObj kvs) = True"

fun truthyOpt :: "jval option \<Rightarrow> bool" where
  "truthyOpt None = False"
| "truthyOpt (Some v) = truthy v"

text \<open>\<open>a || b\<close>, with \<open>b\<close> possibly undefined, and with \<open>b\<close> a value.\<close>

definition orElse :: "jval option \<Rightarrow> jval option \<Rightarrow> jval option" where
  "orElse a b = (if truthyOpt a then a else b)"

fun orValue :: "jval option \<Rightarrow> jval \<Rightarrow> jval" where
  "orValue None b = b"
| "orValue (Some a) b = (if truthy a then a else b)"

text \<open>\<open>String(v)\<close> and the conversion a template literal applies.\<close>

fun ToString :: "lib \<Rightarrow> jval \<Rightarrow> jstring" where
  "ToString L (JStr s) = s"
| "ToString L (JNum n) = NumberToString L n"
| "ToString L (JBool b) = (if b then ascii ''true'' else ascii ''false'')"
| "ToString L (JArr xs) = join (ascii '','') (map (ToString L) xs)"
| "ToString L (JObj kvs) = ascii ''[object Object]''"

fun StringOpt :: "lib \<Rightarrow> jval option \<Rightarrow> jstring" where
  "StringOpt L None = ascii ''undefined''"
| "StringOpt L (Some v) = ToString L v"

text \<open>\<open>Number(v)\<close>, and \<open>a === b\<close> on numbers.\<close>

fun Number :: "lib \<Rightarrow> jval option \<Rightarrow> jsnum" where
  "Number L None = NaN"
| "Number L (Some (JStr s)) = StringToNumber L s"
| "Number L (Some (JNum n)) = n"
| "Number L (Some (JBool b)) = Fin (if b then 1 else 0)"
| "Number L (Some v) = StringToNumber L (ToString L v)"

definition strictEq :: "jsnum \<Rightarrow> jsnum \<Rightarrow> bool" where
  "strictEq a b = (a \<noteq> NaN \<and> a = b)"

text \<open>
  \<open>node[key]\<close> for the property names the source reads (none of them is a property of
  a string, a number, a boolean or an array), and \<open>Object.values\<close>.
\<close>

fun field :: "jval \<Rightarrow> string \<Rightarrow> jval option" where
  "field (JObj kvs) key = map_of kvs (ascii key)"
| "field v key = None"

fun objectValues :: "jval \<Rightarrow> jval list" where
  "objectValues (JObj kvs) = map snd kvs"
| "objectValues (JArr xs) = xs"
| "objectValues v = []"

fun ensureArray :: "jval option \<Rightarrow> jval list" where
  "ensureArray None = []"
| "ensureArray (Some (JArr xs)) = xs"
| "ensureArray (Some v) = [v]"

lemma size_JArr_elem: "x \<in> set xs \<Longrightarrow> size x < size (JArr xs)"
  using size_list_estimation' [of x xs "size x" size] by simp

lemma size_JObj_elem: "(k, x) \<in> set kvs \<Longrightarrow> size x < size (JObj kvs)"
  using size_list_estimation' [of "(k, x)" kvs "Suc (size x)" "size_prod (\<lambda>x. 0) size"] by simp

lemma size_objectValues: "v \<in> set (objectValues node) \<Longrightarrow> size v < size node"
  by (cases node) (auto dest: size_JArr_elem size_JObj_elem)

lemma size_objectValues_arr:
  "x \<in> set (objectValues node) \<Longrightarrow> x = JArr vs \<Longrightarrow> xa \<in> set vs \<Longrightarrow> size xa < size node"
  using size_objectValues [of x node] size_JArr_elem [of xa vs] by simp

lemma size_field: "field node key = Some v \<Longrightarrow> size v < size node"
  by (cases node) (auto dest!: map_of_SomeD size_JObj_elem)

lemma size_ensureArray: "x \<in> set (ensureArray (Some v)) \<Longrightarrow> size x \<le> size v"
  by (cases v) (auto dest: size_JArr_elem less_imp_le)

lemma size_children: "x \<in> set (ensureArray (field node key)) \<Longrightarrow> size x < size node"
  by (cases "field node key") (auto dest!: size_field size_ensureArray)

lemma size_children_orElse:
  "x \<in> set (ensureArray (orElse (field node k1) (field node k2))) \<Longrightarrow> size x < size node"
  by (auto simp: orElse_def dest: size_children split: if_splits)

section \<open>Text extraction (parser.ts, extractText and extractSentenceText)\<close>

function extractText :: "lib \<Rightarrow> jval option \<Rightarrow> jstring" where
  "extractText L None = []"
| "extractText L (Some node) =
     (if \<not> truthy node then []
      else case node of
        JStr s \<Rightarrow> s
      | JNum n \<Rightarrow> NumberToString L n
      | _ \<Rightarrow>
          if truthyOpt (field node ''#text'') then StringOpt L (field node ''#text'')
          else concat (concat (map
            (\<lambda>v. case v of
                   JStr s \<Rightarrow> [s]
                 | JArr vs \<Rightarrow> map (\<lambda>x. extractText L (Some x)) vs
                 | JObj kvs \<Rightarrow> [extractText L (Some v)]
                 | _ \<Rightarrow> [])
            (objectValues node))))"
  by pat_completeness auto
termination
  apply (relation "measure (\<lambda>(L, node). case node of None \<Rightarrow> 0 | Some v \<Rightarrow> size v)")
  apply simp
  apply (simp_all only: in_measure prod.case option.case)
  apply (blast intro: size_objectValues_arr size_objectValues)+
  done

declare extractText.simps(2) [simp del]

definition extractSentenceText :: "lib \<Rightarrow> jval option \<Rightarrow> jstring" where
  "extractSentenceText L sentence =
     (case sentence of
        None \<Rightarrow> []
      | Some s \<Rightarrow>
          if \<not> truthy s then []
          else case s of
            JStr str \<Rightarrow> str
          | _ \<Rightarrow> concat (map (\<lambda>x. extractText L (Some x))
                   (ensureArray (orElse (field s ''Sentence'') (Some s)))))"

text \<open>The strings the loop of \<open>extractText\<close> pushes for one value of the object.\<close>

definition valueTexts :: "lib \<Rightarrow> jval \<Rightarrow> jstring list" where
  "valueTexts L v =
     (case v of
        JStr s \<Rightarrow> [s]
      | JArr vs \<Rightarrow> map (\<lambda>x. extractText L (Some x)) vs
      | JObj kvs \<Rightarrow> [extractText L (Some v)]
      | _ \<Rightarrow> [])"

section \<open>The content renderer (parser.ts)\<close>

text \<open>\<open>extractItemContent\<close>: an item's sentence behind its indent and designator, then its sub-items one level deeper.\<close>

function extractItemContent :: "lib \<Rightarrow> jval \<Rightarrow> nat \<Rightarrow> jstring" where
  "extractItemContent L item level =
     join [10]
       ((if truthyOpt (field item ''ItemSentence'')
         then [concat (replicate level (ascii ''  '')) @ StringOpt L (field item ''@_Num'') @ [wideSpace] @
               extractSentenceText L (field item ''ItemSentence'')]
         else []) @
        map (\<lambda>subitem. extractItemContent L subitem (level + 1))
          (ensureArray (orElse (field item ''Subitem1'') (field item ''Subitem2''))))"
  by pat_completeness auto
termination
  apply (relation "measure (\<lambda>(L, item, level). size item)")
  apply simp
  apply (simp only: in_measure prod.case)
  apply (erule size_children_orElse)
  done

declare extractItemContent.simps [simp del]

definition extractParagraphContent :: "lib \<Rightarrow> jval \<Rightarrow> jstring" where
  "extractParagraphContent L paragraph =
     (let num = field paragraph ''@_Num'';
          sentence = field paragraph ''ParagraphSentence''
      in join [10]
           ((if truthyOpt sentence
             then [(if truthyOpt num \<and> num \<noteq> Some (JStr (ascii ''1''))
                    then StringOpt L num @ [wideSpace] else []) @
                   extractSentenceText L sentence]
             else []) @
            map (\<lambda>item. extractItemContent L item 1) (ensureArray (field paragraph ''Item''))))"

text \<open>
  The loop of \<open>extractArticleContent\<close> over the paragraphs: with a target paragraph, a
  paragraph whose \<open>Number(paraNum)\<close> is not strictly equal to it is skipped.
\<close>

fun paragraphParts :: "lib \<Rightarrow> jsnum option \<Rightarrow> jval list \<Rightarrow> jstring list" where
  "paragraphParts L targetParagraph [] = []"
| "paragraphParts L targetParagraph (para # rest) =
     (case targetParagraph of
        None \<Rightarrow> extractParagraphContent L para # paragraphParts L targetParagraph rest
      | Some target \<Rightarrow>
          if \<not> strictEq (Number L (field para ''@_Num'')) target
          then paragraphParts L targetParagraph rest
          else extractParagraphContent L para # paragraphParts L targetParagraph rest)"

text \<open>The caption and title lines \<open>extractArticleContent\<close> pushes before the paragraphs.\<close>

definition articleHeading :: "lib \<Rightarrow> jval \<Rightarrow> jstring list" where
  "articleHeading L article =
     (let caption = field article ''ArticleCaption'';
          title = field article ''ArticleTitle'';
          num = field article ''@_Num''
      in (if truthyOpt caption then [ascii ''**'' @ extractText L caption @ ascii ''**''] else []) @
         (if truthyOpt title \<or> truthyOpt num
          then [ascii ''**'' @
                (if truthyOpt title then extractText L title else [dai] @ StringOpt L num @ [jou]) @
                ascii ''**'' @ [10]]
          else []))"

definition extractArticleContent :: "lib \<Rightarrow> jval \<Rightarrow> jsnum option \<Rightarrow> jstring" where
  "extractArticleContent L article targetParagraph =
     join [10]
       (articleHeading L article @
        paragraphParts L targetParagraph (ensureArray (field article ''Paragraph'')))"

definition extractSectionContent :: "lib \<Rightarrow> jval \<Rightarrow> jstring" where
  "extractSectionContent L section' =
     join [10]
       ((if truthyOpt (field section' ''SectionTitle'')
         then [ascii ''##### '' @ extractText L (field section' ''SectionTitle'') @ [10]] else []) @
        map (\<lambda>article. extractArticleContent L article None) (ensureArray (field section' ''Article'')))"

definition extractChapterContent :: "lib \<Rightarrow> jval \<Rightarrow> jstring" where
  "extractChapterContent L chapter' =
     (let sections = ensureArray (field chapter' ''Section'')
      in join [10]
           ((if truthyOpt (field chapter' ''ChapterTitle'')
             then [ascii ''#### '' @ extractText L (field chapter' ''ChapterTitle'') @ [10]] else []) @
            map (extractSectionContent L) sections @
            (if length sections = 0
             then map (\<lambda>article. extractArticleContent L article None)
                    (ensureArray (field chapter' ''Article''))
             else [])))"

definition extractPartContent :: "lib \<Rightarrow> jval \<Rightarrow> jstring" where
  "extractPartContent L part =
     join [10]
       ((if truthyOpt (field part ''PartTitle'')
         then [ascii ''### '' @ extractText L (field part ''PartTitle'') @ [10]] else []) @
        map (extractChapterContent L) (ensureArray (field part ''Chapter'')))"

definition extractMainProvisionContent :: "lib \<Rightarrow> jval \<Rightarrow> jstring" where
  "extractMainProvisionContent L mainProvision =
     (let partsList = ensureArray (field mainProvision ''Part'')
      in join [10]
           (map (extractPartContent L) partsList @
            (if length partsList = 0
             then map (extractChapterContent L) (ensureArray (field mainProvision ''Chapter''))
             else []) @
            (if length partsList = 0
             then map (\<lambda>article. extractArticleContent L article None)
                    (ensureArray (field mainProvision ''Article''))
             else [])))"

definition extractParagraphsText :: "lib \<Rightarrow> jval \<Rightarrow> jstring" where
  "extractParagraphsText L node =
     join [10] (map (extractParagraphContent L) (ensureArray (field node ''Paragraph'')))"

definition extractSupplementaryContent :: "lib \<Rightarrow> jval \<Rightarrow> jstring" where
  "extractSupplementaryContent L supp =
     join [10]
       ((if truthyOpt (field supp ''SupplementaryProvisionLabel'')
         then [ascii ''### '' @ extractText L (field supp ''SupplementaryProvisionLabel'') @ [10]]
         else []) @
        map (\<lambda>article. extractArticleContent L article None) (ensureArray (field supp ''Article'')))"

text \<open>The three headings are the source's literals: U+524D U+6587, U+672C U+5247 and U+9644 U+5247.\<close>

definition extractLawContent :: "lib \<Rightarrow> jval \<Rightarrow> jstring" where
  "extractLawContent L lawBody =
     join [10]
       ((case field lawBody ''Preamble'' of
           Some preamble \<Rightarrow>
             if truthy preamble
             then [ascii ''## '' @ [21069, 25991, 10], extractParagraphsText L preamble] else []
         | None \<Rightarrow> []) @
        (case field lawBody ''MainProvision'' of
           Some mainProvision \<Rightarrow>
             if truthy mainProvision
             then [ascii ''## '' @ [26412, 21063, 10], extractMainProvisionContent L mainProvision]
             else []
         | None \<Rightarrow> []) @
        (if truthyOpt (field lawBody ''SupplementaryProvisions'')
         then (ascii ''## '' @ [38468, 21063, 10]) #
              map (extractSupplementaryContent L) (ensureArray (field lawBody ''SupplementaryProvisions''))
         else []))"

section \<open>The table of contents (parser.ts, extractToc and extractTocItem)\<close>

datatype TocItem = TocItem (title: jstring) (ref: jstring) (children: "TocItem list option")

definition getTypePrefix :: "string \<Rightarrow> jstring" where
  "getTypePrefix type =
     (case map_of [(''Part'', [dai]), (''Chapter'', [dai]), (''Section'', [dai]),
                   (''Subsection'', [dai]), (''Article'', [dai])] type of
        Some prefix \<Rightarrow> prefix
      | None \<Rightarrow> [])"

text \<open>\<open>.filter((c) => c !== null)\<close> on the mapped children.\<close>

fun dropNulls :: "'a option list \<Rightarrow> 'a list" where
  "dropNulls [] = []"
| "dropNulls (None # xs) = dropNulls xs"
| "dropNulls (Some x # xs) = x # dropNulls xs"

function extractTocItem :: "lib \<Rightarrow> jval \<Rightarrow> string \<Rightarrow> TocItem option" where
  "extractTocItem L node type =
     (if \<not> truthy node then None
      else
        let title = orElse (field node (type @ ''Title'')) (field node ''@_Num'')
        in if \<not> truthyOpt title then None
           else Some (TocItem
             (extractText L title)
             (getTypePrefix type @ ToString L (orValue (field node ''@_Num'') (JStr [])))
             (case find (\<lambda>childType. length (ensureArray (field node childType)) > 0)
                     [''Chapter'', ''Section'', ''Subsection'', ''Article''] of
                None \<Rightarrow> None
              | Some childType \<Rightarrow>
                  Some (dropNulls (map (\<lambda>child. extractTocItem L child childType)
                                     (ensureArray (field node childType)))))))"
  by pat_completeness auto
termination
  apply (relation "measure (\<lambda>(L, node, type). size node)")
  apply simp
  apply (simp only: in_measure prod.case)
  apply (erule size_children)
  done

declare extractTocItem.simps [simp del]

definition extractToc :: "lib \<Rightarrow> jval \<Rightarrow> TocItem list" where
  "extractToc L lawBody =
     (case field lawBody ''MainProvision'' of
        None \<Rightarrow> []
      | Some mainProvision \<Rightarrow>
          if \<not> truthy mainProvision then []
          else
            let toc = dropNulls (map (\<lambda>part. extractTocItem L part ''Part'')
                                   (ensureArray (field mainProvision ''Part''))) @
                      dropNulls (map (\<lambda>chapter'. extractTocItem L chapter' ''Chapter'')
                                   (ensureArray (field mainProvision ''Chapter'')))
            in if length toc = 0
               then map (\<lambda>article.
                      TocItem
                        (extractText L (orElse (field article ''ArticleTitle'') (field article ''@_Num'')))
                        ([dai] @ StringOpt L (field article ''@_Num'') @ [jou])
                        None)
                    (ensureArray (field mainProvision ''Article''))
               else toc)"

section \<open>The document builder (parser.ts, parseLawText)\<close>

record LawText =
  lawId :: jstring
  lawNumber :: jstring
  lawName :: jstring
  content :: jstring
  toc :: "TocItem list"
  fetchedAt :: int

text \<open>
  The probe of the envelopes, outer to inner: \<open>DataRoot\<close>, \<open>ApplData\<close>, \<open>LawFullText\<close>,
  \<open>Law\<close>; a layer that is absent is skipped.
\<close>

definition applDataOf :: "jval \<Rightarrow> jval" where
  "applDataOf result = (let dataRoot = orValue (field result ''DataRoot'') result
                        in orValue (field dataRoot ''ApplData'') dataRoot)"

definition lawDataOf :: "jval \<Rightarrow> jval" where
  "lawDataOf applData = (let lawFullText = orValue (field applData ''LawFullText'') applData
                         in orValue (field lawFullText ''Law'') lawFullText)"

text \<open>The \<open>lawBody\<close> that \<open>parseLawText\<close> and \<open>parseArticle\<close> reach in a decoded document.\<close>

definition lawBodyOf :: "jval \<Rightarrow> jval" where
  "lawBodyOf result = orValue (field (lawDataOf (applDataOf result)) ''LawBody'') (JObj [])"

text \<open>What \<open>parseLawText\<close> does with the decoded document; \<open>now\<close> is the clock's reading.\<close>

definition buildLawText :: "lib \<Rightarrow> int \<Rightarrow> jval \<Rightarrow> LawText" where
  "buildLawText L now result =
     (let applData = applDataOf result;
          lawData = lawDataOf applData;
          lawId = orValue (orElse (field applData ''LawId'') (field lawData ''@_LawId'')) (JStr []);
          lawNum = orValue (orElse (field lawData ''LawNum'') (field lawData ''@_LawNum'')) (JStr []);
          lawBody = orValue (field lawData ''LawBody'') (JObj []);
          lawTitle = orValue (orElse (field lawBody ''LawTitle'') (field lawData ''LawTitle'')) (JStr [])
      in \<lparr> lawId = ToString L lawId,
           lawNumber = ToString L lawNum,
           lawName = extractText L (Some lawTitle),
           content = extractLawContent L lawBody,
           toc = extractToc L lawBody,
           fetchedAt = now \<rparr>)"

text \<open>A thrown value is \<open>Inl\<close> with the error's message.\<close>

definition parseLawText :: "lib \<Rightarrow> int \<Rightarrow> jstring \<Rightarrow> jstring + LawText" where
  "parseLawText L now xml =
     (case xmlParse L xml of
        Inl message \<Rightarrow> Inl message
      | Inr result \<Rightarrow> Inr (buildLawText L now result))"

section \<open>The article locator (parser.ts, findArticle and findArticleRecursive)\<close>

text \<open>
  A loop that returns the first truthy result (\<open>if (found) return found\<close>) and \<open>null\<close>
  when it runs to its end.
\<close>

fun firstTruthy :: "('a \<Rightarrow> jval option) \<Rightarrow> 'a list \<Rightarrow> jval option" where
  "firstTruthy f [] = None"
| "firstTruthy f (x # xs) = (let found = f x in if truthyOpt found then found else firstTruthy f xs)"

lemma firstTruthy_cong [fundef_cong]:
  "xs = ys \<Longrightarrow> (\<And>x. x \<in> set ys \<Longrightarrow> f x = g x) \<Longrightarrow> firstTruthy f xs = firstTruthy g ys"
  by (induction ys arbitrary: xs) (auto simp: Let_def)

text \<open>The keys \<open>findArticleRecursive\<close> descends through, in its order.\<close>

abbreviation (input) containerKeys :: "string list" where
  "containerKeys \<equiv> [''Part'', ''Chapter'', ''Section'', ''Subsection'', ''Division'']"

function findArticleRecursive :: "lib \<Rightarrow> jval \<Rightarrow> jstring \<Rightarrow> jval option" where
  "findArticleRecursive L node targetNum =
     (case find (\<lambda>article. StringOpt L (field article ''@_Num'') = targetNum)
             (ensureArray (field node ''Article'')) of
        Some article \<Rightarrow> Some article
      | None \<Rightarrow>
          firstTruthy
            (\<lambda>key. firstTruthy (\<lambda>child. findArticleRecursive L child targetNum)
                     (ensureArray (field node key)))
            containerKeys)"
  by pat_completeness auto
termination
  apply (relation "measure (\<lambda>(L, node, targetNum). size node)")
  apply simp
  apply (simp only: in_measure prod.case)
  apply (erule size_children)
  done

declare findArticleRecursive.simps [simp del]

definition findArticle :: "lib \<Rightarrow> jval \<Rightarrow> jstring \<Rightarrow> jval option" where
  "findArticle L lawBody targetArticle =
     (let normalizedTarget = normalizeArticleNum targetArticle
      in case field lawBody ''MainProvision'' of
           None \<Rightarrow> None
         | Some mainProvision \<Rightarrow>
             if \<not> truthy mainProvision then None
             else findArticleRecursive L mainProvision normalizedTarget)"

text \<open>
  The order the specification gives the search: a container's own Articles first, then
  the Articles of its nested containers, container by container.  This definition
  follows the specification; the theorem below compares the source with it.
\<close>

function articlesInOrder :: "jval \<Rightarrow> jval list" where
  "articlesInOrder node =
     ensureArray (field node ''Article'') @
     concat (map (\<lambda>key. concat (map articlesInOrder (ensureArray (field node key))))
               containerKeys)"
  by pat_completeness auto
termination
  apply (relation "measure size")
  apply simp
  apply (simp only: in_measure)
  apply (erule size_children)
  done

declare articlesInOrder.simps [simp del]

section \<open>The article view (parser.ts, parseArticle and extractParagraphs)\<close>

record Item =
  itemNum :: jstring
  itemContent :: jstring

record Paragraph =
  paragraphNum :: jsnum
  paragraphContent :: jstring
  items :: "Item list"

record Article =
  articleLawId :: jstring
  articleNum :: jstring
  articleTitle :: "jstring option"
  articleContent :: jstring
  paragraphs :: "Paragraph list"

text \<open>\<open>Number(x) || 1\<close>.\<close>

definition numberOrOne :: "jsnum \<Rightarrow> jsnum" where
  "numberOrOne n = (if n = NaN \<or> n = Fin 0 then Fin 1 else n)"

fun extractParagraphs :: "lib \<Rightarrow> jsnum option \<Rightarrow> jval list \<Rightarrow> Paragraph list" where
  "extractParagraphs L targetParagraph [] = []"
| "extractParagraphs L targetParagraph (para # rest) =
     (let num = numberOrOne (Number L (field para ''@_Num''));
          entry = \<lparr> paragraphNum = num,
                    paragraphContent = extractSentenceText L (field para ''ParagraphSentence''),
                    items = map (\<lambda>item. \<lparr> itemNum = StringOpt L (field item ''@_Num''),
                                           itemContent = extractSentenceText L (field item ''ItemSentence'') \<rparr>)
                              (ensureArray (field para ''Item'')) \<rparr>
      in case targetParagraph of
           None \<Rightarrow> entry # extractParagraphs L targetParagraph rest
         | Some target \<Rightarrow>
             if \<not> strictEq num target then extractParagraphs L targetParagraph rest
             else entry # extractParagraphs L targetParagraph rest)"

text \<open>What \<open>parseArticle\<close> does with the decoded document; \<open>None\<close> is \<open>null\<close>.\<close>

definition buildArticle :: "lib \<Rightarrow> jval \<Rightarrow> jstring \<Rightarrow> jsnum option \<Rightarrow> Article option" where
  "buildArticle L result targetArticle targetParagraph =
     (let applData = applDataOf result;
          lawData = lawDataOf applData;
          lawBody = orValue (field lawData ''LawBody'') (JObj []);
          lawId = orValue (orElse (field applData ''LawId'') (field lawData ''@_LawId'')) (JStr [])
      in case findArticle L lawBody targetArticle of
           None \<Rightarrow> None
         | Some article \<Rightarrow>
             if \<not> truthy article then None
             else Some
               \<lparr> articleLawId = ToString L lawId,
                 articleNum = targetArticle,
                 articleTitle =
                   (if truthyOpt (field article ''ArticleTitle'')
                    then Some (extractText L (field article ''ArticleTitle'')) else None),
                 articleContent = extractArticleContent L article targetParagraph,
                 paragraphs = extractParagraphs L targetParagraph (ensureArray (field article ''Paragraph'')) \<rparr>)"

definition parseArticle :: "lib \<Rightarrow> jstring \<Rightarrow> jstring \<Rightarrow> jsnum option \<Rightarrow> jstring + Article option" where
  "parseArticle L xml targetArticle targetParagraph =
     (case xmlParse L xml of
        Inl message \<Rightarrow> Inl message
      | Inr result \<Rightarrow> Inr (buildArticle L result targetArticle targetParagraph))"

section \<open>The client (client.ts, fetchWithRetry, getLawById and getArticle)\<close>

datatype 'a ApiResponse = Success 'a | Failure jstring jstring   \<comment> \<open>the error's code and message\<close>

text \<open>
  What one \<open>fetch\<close> meets: the request is rejected (a network failure or the timeout's
  abort, with the error's message), or a response arrives with its status, its status
  text and its body, where reading the body may be rejected in turn.  The network gives
  the outcome of the \<open>n\<close>-th request of a session to a URL.
\<close>

datatype response = Rejects jstring | Replies nat jstring "jstring + jstring"

type_synonym network = "jstring \<Rightarrow> nat \<Rightarrow> response"

text \<open>The requests sent so far and the delays waited, in milliseconds and in order.\<close>

record session =
  fetched :: nat
  delays :: "nat list"

abbreviation (input) MAX_RETRIES :: nat where "MAX_RETRIES \<equiv> 3"
abbreviation (input) RETRY_DELAY :: nat where "RETRY_DELAY \<equiv> 1000"

definition BASE_URL :: jstring where
  "BASE_URL = ascii ''https://laws.e-gov.go.jp/api/1''"

text \<open>The two Japanese messages of \<open>fetchWithRetry\<close>, and the one \<open>getArticle\<close> throws.\<close>

definition notFoundMessage :: jstring where
  "notFoundMessage = [12522, 12477, 12540, 12473, 12364, 35211, 12388, 12363, 12426, 12414,
                      12379, 12435, 12391, 12375, 12383]"

definition requestFailedMessage :: jstring where
  "requestFailedMessage = [12522, 12463, 12456, 12473, 12488, 12395, 22833, 25943, 12375,
                           12414, 12375, 12383]"

definition articleMissingMessage :: "jstring \<Rightarrow> jstring" where
  "articleMissingMessage article =
     [26465, 25991, 12300] @ article @
     [12301, 12364, 35211, 12388, 12363, 12426, 12414, 12379, 12435, 12391, 12375, 12383]"

text \<open>
  The body of the \<open>try\<close> block for one response: \<open>Inr\<close> is a \<open>return\<close>, \<open>Inl\<close> a thrown
  error that the \<open>catch\<close> receives.
\<close>

definition attemptOnce :: "response \<Rightarrow> (jstring \<Rightarrow> jstring + 'a) \<Rightarrow> jstring + 'a ApiResponse" where
  "attemptOnce r parser =
     (case r of
        Rejects message \<Rightarrow> Inl message
      | Replies status statusText body \<Rightarrow>
          if \<not> (200 \<le> status \<and> status \<le> 299)
          then (if status = 404 then Inr (Failure (ascii ''NOT_FOUND'') notFoundMessage)
                else Inl (ascii ''HTTP '' @ decimal status @ ascii '': '' @ statusText))
          else (case body of
                  Inl message \<Rightarrow> Inl message
                | Inr xml \<Rightarrow>
                    (case parser xml of
                       Inl message \<Rightarrow> Inl message
                     | Inr data \<Rightarrow> Inr (Success data))))"

function attemptLoop ::
  "network \<Rightarrow> jstring \<Rightarrow> (jstring \<Rightarrow> jstring + 'a) \<Rightarrow> nat \<Rightarrow> nat \<Rightarrow> jstring option \<Rightarrow> session
     \<Rightarrow> 'a ApiResponse \<times> session" where
  "attemptLoop net url parser maxRetries attempt lastError s =
     (if attempt \<le> maxRetries
      then
        (let s1 = s\<lparr>fetched := fetched s + 1\<rparr>
         in case attemptOnce (net url (fetched s)) parser of
              Inr result \<Rightarrow> (result, s1)
            | Inl message \<Rightarrow>
                attemptLoop net url parser maxRetries (attempt + 1) (Some message)
                  (if attempt < maxRetries
                   then s1\<lparr>delays := delays s1 @ [RETRY_DELAY * attempt]\<rparr> else s1))
      else (Failure (ascii ''FETCH_ERROR'')
              (case lastError of Some message \<Rightarrow> message | None \<Rightarrow> requestFailedMessage), s))"
  by pat_completeness auto
termination
  by (relation "measure (\<lambda>(net, url, parser, maxRetries, attempt, lastError, s). Suc maxRetries - attempt)")
    auto

declare attemptLoop.simps [simp del]

definition fetchWithRetry ::
  "network \<Rightarrow> jstring \<Rightarrow> (jstring \<Rightarrow> jstring + 'a) \<Rightarrow> session \<Rightarrow> 'a ApiResponse \<times> session" where
  "fetchWithRetry net url parser s = attemptLoop net url parser MAX_RETRIES 1 None s"

definition lawdataUrl :: "lib \<Rightarrow> jstring \<Rightarrow> jstring" where
  "lawdataUrl L lawId' = BASE_URL @ ascii ''/lawdata/'' @ encodeURIComponent L lawId'"

definition getLawById :: "lib \<Rightarrow> network \<Rightarrow> int \<Rightarrow> jstring \<Rightarrow> session \<Rightarrow> LawText ApiResponse \<times> session" where
  "getLawById L net now lawId' s = fetchWithRetry net (lawdataUrl L lawId') (parseLawText L now) s"

text \<open>The callback \<open>getArticle\<close> hands to \<open>fetchWithRetry\<close>: it throws when \<open>parseArticle\<close> returns \<open>null\<close>.\<close>

definition articleParser :: "lib \<Rightarrow> jstring \<Rightarrow> jsnum option \<Rightarrow> jstring \<Rightarrow> jstring + Article" where
  "articleParser L article paragraph xml =
     (case parseArticle L xml article paragraph of
        Inl message \<Rightarrow> Inl message
      | Inr None \<Rightarrow> Inl (articleMissingMessage article)
      | Inr (Some a) \<Rightarrow> Inr a)"

definition getArticle ::
  "lib \<Rightarrow> network \<Rightarrow> int \<Rightarrow> jstring \<Rightarrow> jstring \<Rightarrow> jsnum option \<Rightarrow> session \<Rightarrow> Article ApiResponse \<times> session" where
  "getArticle L net now lawId' article paragraph s =
     (case getLawById L net now lawId' s of
        (Failure code message, s1) \<Rightarrow> (Failure code message, s1)
      | (Success lawText, s1) \<Rightarrow>
          fetchWithRetry net (lawdataUrl L lawId') (articleParser L article paragraph) s1)"

section \<open>The TTL disk cache (law-cache.ts)\<close>

subsection \<open>Keys and paths\<close>

text \<open>The three categories, with the string each stands for in the source.\<close>

datatype cacheType = lawList | lawText | updateList

fun typeName :: "cacheType \<Rightarrow> jstring" where
  "typeName lawList = ascii ''lawList''"
| "typeName lawText = ascii ''lawText''"
| "typeName updateList = ascii ''updateList''"

text \<open>The character class \<open>[a-zA-Z0-9\-_]\<close>; \<open>replace\<close> with the \<open>g\<close> flag works code unit by code unit.\<close>

definition isSafeChar :: "nat \<Rightarrow> bool" where
  "isSafeChar c = ((97 \<le> c \<and> c \<le> 122) \<or> (65 \<le> c \<and> c \<le> 90) \<or> (48 \<le> c \<and> c \<le> 57) \<or> c = 45 \<or> c = 95)"

definition getCacheKey :: "jstring \<Rightarrow> jstring \<Rightarrow> jstring" where
  "getCacheKey type id' =
     (let safeId = map (\<lambda>c. if isSafeChar c then c else 95) id'
      in type @ ascii ''_'' @ safeId @ ascii ''.json'')"

text \<open>
  Node's \<open>path.posix.join\<close> of two arguments, which \<open>getCachePath\<close> calls: the non-empty
  arguments are joined with a slash and the result is normalized, segment by segment
  (an empty segment and \<open>.\<close> are dropped, \<open>..\<close> removes the segment before it).
\<close>

fun splitOn :: "nat \<Rightarrow> jstring \<Rightarrow> jstring list" where
  "splitOn sep [] = [[]]"
| "splitOn sep (c # cs) =
     (if c = sep then [] # splitOn sep cs
      else (case splitOn sep cs of seg # segs \<Rightarrow> (c # seg) # segs | [] \<Rightarrow> [[c]]))"

fun normalizeSegments :: "bool \<Rightarrow> jstring list \<Rightarrow> jstring list \<Rightarrow> jstring list" where
  "normalizeSegments allowAboveRoot res [] = res"
| "normalizeSegments allowAboveRoot res (seg # rest) =
     (if seg = [] \<or> seg = ascii ''.'' then normalizeSegments allowAboveRoot res rest
      else if seg = ascii ''..''
      then (if res \<noteq> [] \<and> last res \<noteq> ascii ''..''
            then normalizeSegments allowAboveRoot (butlast res) rest
            else if allowAboveRoot then normalizeSegments allowAboveRoot (res @ [seg]) rest
            else normalizeSegments allowAboveRoot res rest)
      else normalizeSegments allowAboveRoot (res @ [seg]) rest)"

definition posixNormalize :: "jstring \<Rightarrow> jstring" where
  "posixNormalize path =
     (if path = [] then ascii ''.''
      else
        let isAbsolute = (hd path = 47);
            trailingSeparator = (last path = 47);
            p = join [47] (normalizeSegments (\<not> isAbsolute) [] (splitOn 47 path))
        in if p = [] then (if isAbsolute then [47] else if trailingSeparator then ascii ''./'' else ascii ''.'')
           else (if isAbsolute then [47] else []) @ p @ (if trailingSeparator then [47] else []))"

definition posixJoin :: "jstring \<Rightarrow> jstring \<Rightarrow> jstring" where
  "posixJoin a b =
     (let joined = join [47] (filter (\<lambda>arg. arg \<noteq> []) [a, b])
      in if joined = [] then ascii ''.'' else posixNormalize joined)"

subsection \<open>Errors\<close>

text \<open>
  The error codes of the file system, and what the cache operations can raise: a fault of
  the file system, the \<open>RangeError\<close> of \<open>toISOString\<close> and the \<open>TypeError\<close> of
  \<open>JSON.stringify\<close>.
\<close>

datatype errno = EEXIST | EACCES | ENOENT | ENOTDIR | EISDIR | ENOSPC | EROFS | EIO

datatype exn = ErrnoException errno | RangeError | TypeError

subsection \<open>Payloads and their JSON text\<close>

text \<open>
  The values a caller can hand to \<open>set\<close>: \<open>undefined\<close>, \<open>null\<close>, booleans, numbers,
  strings, BigInts, arrays, and plain objects, each the list of its own enumerable
  properties in enumeration order, with distinct keys.  A function or a symbol is
  serialized as \<open>undefined\<close> is; a structure that contains itself makes \<open>JSON.stringify\<close>
  throw as a BigInt does; an object with a \<open>toJSON\<close> method is serialized as what the
  method returns.  None of the three is a term of this type.
\<close>

datatype jsdata =
    DUndefined
  | DNull
  | DBool bool
  | DNum jsnum
  | DStr jstring
  | DBigInt int
  | DArr "jsdata list"
  | DObj "(jstring \<times> jsdata) list"

text \<open>
  \<open>JSON.stringify\<close>, after SerializeJSONProperty, SerializeJSONArray and
  SerializeJSONObject of ECMAScript.  The text it returns is given by the value that
  \<open>JSON.parse\<close> reads back from that text; \<open>None\<close> is \<open>undefined\<close>, no text at all.  A
  number that is not finite is written \<open>null\<close>, and a BigInt throws.  In an array an
  element that serializes to \<open>undefined\<close> is written \<open>null\<close>; in an object a property
  whose value serializes to \<open>undefined\<close> is left out.
\<close>

fun stringify :: "jsdata \<Rightarrow> exn + jsdata option"
and stringifyElements :: "jsdata list \<Rightarrow> exn + jsdata list"
and stringifyMembers :: "(jstring \<times> jsdata) list \<Rightarrow> exn + (jstring \<times> jsdata) list" where
  "stringify DUndefined = Inr None"
| "stringify DNull = Inr (Some DNull)"
| "stringify (DBool b) = Inr (Some (DBool b))"
| "stringify (DNum n) = Inr (Some (case n of Fin q \<Rightarrow> DNum (Fin q) | _ \<Rightarrow> DNull))"
| "stringify (DStr s) = Inr (Some (DStr s))"
| "stringify (DBigInt n) = Inl TypeError"
| "stringify (DArr xs) =
     (case stringifyElements xs of Inl e \<Rightarrow> Inl e | Inr ys \<Rightarrow> Inr (Some (DArr ys)))"
| "stringify (DObj kvs) =
     (case stringifyMembers kvs of Inl e \<Rightarrow> Inl e | Inr ms \<Rightarrow> Inr (Some (DObj ms)))"
| "stringifyElements [] = Inr []"
| "stringifyElements (x # xs) =
     (case stringify x of
        Inl e \<Rightarrow> Inl e
      | Inr r \<Rightarrow>
          (case stringifyElements xs of
             Inl e \<Rightarrow> Inl e
           | Inr ys \<Rightarrow> Inr ((case r of None \<Rightarrow> DNull | Some y \<Rightarrow> y) # ys)))"
| "stringifyMembers [] = Inr []"
| "stringifyMembers (kv # kvs) =
     (case stringify (snd kv) of
        Inl e \<Rightarrow> Inl e
      | Inr r \<Rightarrow>
          (case stringifyMembers kvs of
             Inl e \<Rightarrow> Inl e
           | Inr ms \<Rightarrow> Inr ((case r of None \<Rightarrow> [] | Some y \<Rightarrow> [(fst kv, y)]) @ ms)))"

text \<open>
  \<open>entry.data\<close> of the entry that \<open>JSON.parse\<close> reads: a member that the text does not
  have reads as \<open>undefined\<close>.
\<close>

definition entryData :: "jsdata option \<Rightarrow> jsdata" where
  "entryData written = (case written of None \<Rightarrow> DUndefined | Some v \<Rightarrow> v)"

subsection \<open>The cache object and the disk\<close>

record CacheConfig =
  lawListTtl :: int
  lawTextTtl :: int
  updateListTtl :: int

record LawCache =
  cacheDir :: jstring
  config :: CacheConfig
  initialized :: bool

text \<open>The constructor: a duration the caller leaves out takes its default, in milliseconds.\<close>

definition newLawCache :: "jstring \<Rightarrow> int option \<Rightarrow> int option \<Rightarrow> int option \<Rightarrow> LawCache" where
  "newLawCache dir listTtl textTtl updateTtl =
     \<lparr> cacheDir = dir,
       config = \<lparr> lawListTtl = (case listTtl of Some t \<Rightarrow> t | None \<Rightarrow> 24 * 60 * 60 * 1000),
                  lawTextTtl = (case textTtl of Some t \<Rightarrow> t | None \<Rightarrow> 7 * 24 * 60 * 60 * 1000),
                  updateListTtl = (case updateTtl of Some t \<Rightarrow> t | None \<Rightarrow> 60 * 60 * 1000) \<rparr>,
       initialized = False \<rparr>"

definition getCachePath :: "LawCache \<Rightarrow> jstring \<Rightarrow> jstring" where
  "getCachePath c key = posixJoin (cacheDir c) key"

fun getTtl :: "LawCache \<Rightarrow> cacheType \<Rightarrow> int" where
  "getTtl c lawList = lawListTtl (config c)"
| "getTtl c lawText = lawTextTtl (config c)"
| "getTtl c updateList = updateListTtl (config c)"

text \<open>
  Times are milliseconds since the epoch; an ISO-8601 string written by \<open>toISOString\<close>
  reads back as the same time.  A file holds the JSON text of an entry, given by what
  \<open>get\<close> reads from it (\<open>entry.data\<close> and the time of \<open>entry.expiresAt\<close>), or JSON that
  decodes to something whose \<open>expiresAt\<close> is no date (then \<open>get\<close> reads its \<open>data\<close>
  as it is), or text for which \<open>JSON.parse\<close> or the property read throws.  The answer
  \<open>null\<close> of \<open>get\<close>, the miss, is \<open>None\<close>; an entry whose data is itself \<open>null\<close> is
  answered \<open>Some DNull\<close>, which a caller of the source cannot tell from the miss.
\<close>

record 'a CacheEntry =
  data :: 'a
  cachedAt :: int
  expiresAt :: int

datatype 'a fileContent = EntryJson "'a CacheEntry" | OtherJson 'a | Corrupt

text \<open>
  The disk: the files by path, and the fault each of \<open>mkdir\<close>, \<open>readFile\<close> and
  \<open>writeFile\<close> meets, if any (a missing file fails to read with \<open>ENOENT\<close>).
\<close>

record 'a fsys =
  files :: "jstring \<Rightarrow> 'a fileContent option"
  mkdirFault :: "errno option"
  readFault :: "jstring \<Rightarrow> errno option"
  writeFault :: "jstring \<Rightarrow> errno option"

definition readFile :: "'a fsys \<Rightarrow> jstring \<Rightarrow> errno + 'a fileContent" where
  "readFile fs path =
     (case readFault fs path of
        Some e \<Rightarrow> Inl e
      | None \<Rightarrow> (case files fs path of None \<Rightarrow> Inl ENOENT | Some c \<Rightarrow> Inr c))"

definition writeFile :: "'a fsys \<Rightarrow> jstring \<Rightarrow> 'a fileContent \<Rightarrow> errno + 'a fsys" where
  "writeFile fs path c =
     (case writeFault fs path of
        Some e \<Rightarrow> Inl e
      | None \<Rightarrow> Inr (fs\<lparr>files := (files fs)(path \<mapsto> c)\<rparr>))"

subsection \<open>The operations\<close>

definition ensureInitialized :: "LawCache \<Rightarrow> 'a fsys \<Rightarrow> exn + LawCache" where
  "ensureInitialized c fs =
     (if initialized c then Inr c
      else case mkdirFault fs of
             None \<Rightarrow> Inr (c\<lparr>initialized := True\<rparr>)
           | Some e \<Rightarrow> if e \<noteq> EEXIST then Inl (ErrnoException e) else Inr (c\<lparr>initialized := True\<rparr>))"

text \<open>\<open>get\<close>: \<open>None\<close> is \<open>null\<close>, the miss.  The \<open>try\<close> block's faults all end in the miss.\<close>

definition LawCache_get ::
  "LawCache \<Rightarrow> 'a fsys \<Rightarrow> int \<Rightarrow> cacheType \<Rightarrow> jstring \<Rightarrow> exn + ('a option \<times> LawCache \<times> 'a fsys)" where
  "LawCache_get c fs now type id' =
     (case ensureInitialized c fs of
        Inl e \<Rightarrow> Inl e
      | Inr c1 \<Rightarrow>
          let key = getCacheKey (typeName type) id';
              path = getCachePath c1 key
          in Inr ((case readFile fs path of
                     Inl e \<Rightarrow> None
                   | Inr Corrupt \<Rightarrow> None
                   | Inr (OtherJson d) \<Rightarrow> Some d
                   | Inr (EntryJson entry) \<Rightarrow>
                       if expiresAt entry < now then None else Some (data entry)),
                  c1, fs))"

text \<open>
  \<open>set\<close>: \<open>toISOString\<close> throws a \<open>RangeError\<close> on a time outside the range of \<open>Date\<close>.
  The entry \<open>{data, cachedAt, expiresAt}\<close> goes through \<open>JSON.stringify\<close> before the
  write: a payload on which it throws leaves the disk as it is, and the \<open>data\<close> member
  of the text is what \<open>JSON.stringify\<close> makes of the payload, left out when that is
  \<open>undefined\<close>.
\<close>

abbreviation (input) maxTime :: int where "maxTime \<equiv> 8640000000000000"

definition LawCache_set ::
  "LawCache \<Rightarrow> jsdata fsys \<Rightarrow> int \<Rightarrow> cacheType \<Rightarrow> jstring \<Rightarrow> jsdata \<Rightarrow> exn + (LawCache \<times> jsdata fsys)" where
  "LawCache_set c fs now type id' d =
     (case ensureInitialized c fs of
        Inl e \<Rightarrow> Inl e
      | Inr c1 \<Rightarrow>
          let key = getCacheKey (typeName type) id';
              path = getCachePath c1 key;
              ttl = getTtl c1 type
          in if \<bar>now + ttl\<bar> > maxTime then Inl RangeError
             else (case stringify d of
                     Inl e \<Rightarrow> Inl e
                   | Inr written \<Rightarrow>
                       (case writeFile fs path
                               (EntryJson \<lparr> data = entryData written, cachedAt = now,
                                            expiresAt = now + ttl \<rparr>) of
                          Inl e \<Rightarrow> Inl (ErrnoException e)
                        | Inr fs1 \<Rightarrow> Inr (c1, fs1))))"

section \<open>Text extraction as the specification words it\<close>

text \<open>
  The concatenation of every descendant string of a value, in field order.  This
  definition follows the specification, not the source.
\<close>

function allText :: "jval \<Rightarrow> jstring" where
  "allText (JStr s) = s"
| "allText (JNum n) = []"
| "allText (JBool b) = []"
| "allText (JArr xs) = concat (map allText xs)"
| "allText (JObj kvs) = concat (map (\<lambda>kv. allText (snd kv)) kvs)"
  by pat_completeness auto
termination
  apply (relation "measure size")
  apply simp
  apply (simp only: in_measure)
  apply (erule size_JArr_elem)
  apply (simp only: in_measure)
  apply (metis size_JObj_elem prod.collapse)
  done

text \<open>
  A value built from strings, arrays and objects only, none of whose objects has a
  truthy \<open>#text\<close> entry.
\<close>

function markupOnly :: "jval \<Rightarrow> bool" where
  "markupOnly (JStr s) = True"
| "markupOnly (JNum n) = False"
| "markupOnly (JBool b) = False"
| "markupOnly (JArr xs) = list_all markupOnly xs"
| "markupOnly (JObj kvs) =
     (\<not> truthyOpt (field (JObj kvs) ''#text'') \<and> list_all (\<lambda>kv. markupOnly (snd kv)) kvs)"
  by pat_completeness auto
termination
  apply (relation "measure size")
  apply simp
  apply (simp only: in_measure)
  apply (erule size_JArr_elem)
  apply (simp only: in_measure)
  apply (metis size_JObj_elem prod.collapse)
  done

text \<open>
  The text of a value, by cases on its form, and the text a value adds when it is met as
  a member of an array or of an object.  A string is its own text.  A number has its
  decimal form as text, unless it is zero or NaN, and adds nothing as a member; a boolean
  has no text.  An object with a truthy \<open>#text\<close> entry has that entry's string as text
  and nothing else; every other object, and an array, has the texts its members add, in
  field order.  A member array adds the texts of its elements, a member object its own
  text.  These definitions specify \<open>extractText\<close>; they are not a translation of it.
\<close>

fun textOf :: "lib \<Rightarrow> jval \<Rightarrow> jstring"
and memberText :: "lib \<Rightarrow> jval \<Rightarrow> jstring" where
  "textOf L (JStr s) = s"
| "textOf L (JNum n) = (if truthy (JNum n) then NumberToString L n else [])"
| "textOf L (JBool b) = []"
| "textOf L (JArr xs) = concat (map (memberText L) xs)"
| "textOf L (JObj kvs) =
     (if truthyOpt (field (JObj kvs) ''#text'') then StringOpt L (field (JObj kvs) ''#text'')
      else concat (map (\<lambda>kv. memberText L (snd kv)) kvs))"
| "memberText L (JStr s) = s"
| "memberText L (JNum n) = []"
| "memberText L (JBool b) = []"
| "memberText L (JArr xs) = concat (map (textOf L) xs)"
| "memberText L (JObj kvs) = textOf L (JObj kvs)"

section \<open>The values JSON can express\<close>

text \<open>
  \<open>null\<close>, the booleans, the finite numbers, the strings, and the arrays and plain
  objects whose members are such values.  This predicate specifies the payloads that a
  cache entry gives back as they were stored; it is not in the source.
\<close>

fun jsonValue :: "jsdata \<Rightarrow> bool" where
  "jsonValue DUndefined = False"
| "jsonValue DNull = True"
| "jsonValue (DBool b) = True"
| "jsonValue (DNum n) = (case n of Fin q \<Rightarrow> True | _ \<Rightarrow> False)"
| "jsonValue (DStr s) = True"
| "jsonValue (DBigInt n) = False"
| "jsonValue (DArr xs) = list_all jsonValue xs"
| "jsonValue (DObj kvs) = list_all (\<lambda>kv. jsonValue (snd kv)) kvs"

section \<open>Plain path segments\<close>

text \<open>
  A path segment that normalization keeps as it is: not empty, without a slash, and
  neither \<open>.\<close> nor \<open>..\<close>.  The cache directory \<open>join(homedir(), '.cache', 'egov-law-mcp')\<close>
  is an absolute path of such segments.
\<close>

definition plainSegment :: "jstring \<Rightarrow> bool" where
  "plainSegment seg = (seg \<noteq> [] \<and> 47 \<notin> set seg \<and> seg \<noteq> ascii ''.'' \<and> seg \<noteq> ascii ''..'')"

section \<open>Example data\<close>

text \<open>
  An instance of the library for the examples.  It agrees with ECMAScript where the
  examples use it: on the natural numbers below \<open>10^21\<close>, NaN and the infinities for
  \<open>NumberToString\<close>, on the non-empty strings of ASCII digits for \<open>StringToNumber\<close>, and
  on strings of letters and digits for \<open>encodeURIComponent\<close>.  The decoder is a parameter.
\<close>

definition digitsValue :: "jstring \<Rightarrow> nat" where
  "digitsValue s = foldl (\<lambda>n c. 10 * n + (c - 48)) 0 s"

definition exampleLib :: "(jstring \<Rightarrow> jstring + jval) \<Rightarrow> lib" where
  "exampleLib decode =
     \<lparr> NumberToString =
         (\<lambda>n. case n of
                 NaN \<Rightarrow> ascii ''NaN''
               | PosInf \<Rightarrow> ascii ''Infinity''
               | NegInf \<Rightarrow> ascii ''-Infinity''
               | Fin q \<Rightarrow> decimal (nat \<lfloor>q\<rfloor>)),
       StringToNumber =
         (\<lambda>s. if s \<noteq> [] \<and> list_all isDigit s then Fin (of_nat (digitsValue s)) else NaN),
       xmlParse = decode,
       encodeURIComponent = (\<lambda>s. s) \<rparr>"

text \<open>Articles 1 and 2 under a first Chapter, Articles 20 and 100 under a second.\<close>

definition exampleArticle :: "string \<Rightarrow> jval" where
  "exampleArticle n = JObj [(ascii ''@_Num'', JStr (ascii n))]"

definition exampleChapters :: jval where
  "exampleChapters =
     JObj [(ascii ''Chapter'',
            JArr [JObj [(ascii ''@_Num'', JStr (ascii ''1'')),
                        (ascii ''Article'', JArr [exampleArticle ''1'', exampleArticle ''2''])],
                  JObj [(ascii ''@_Num'', JStr (ascii ''2'')),
                        (ascii ''Article'', JArr [exampleArticle ''20'', exampleArticle ''100''])]])]"

text \<open>An Article of two Paragraphs, with neither caption, title nor number.\<close>

definition exampleParagraph :: "string \<Rightarrow> string \<Rightarrow> jval" where
  "exampleParagraph n sentence =
     JObj [(ascii ''@_Num'', JStr (ascii n)),
           (ascii ''ParagraphSentence'', JObj [(ascii ''Sentence'', JArr [JStr (ascii sentence)])])]"

definition exampleTwoParagraphs :: jval where
  "exampleTwoParagraphs =
     JObj [(ascii ''Paragraph'', JArr [exampleParagraph ''1'' ''first'', exampleParagraph ''2'' ''second''])]"

text \<open>A sentence whose element holds a text node next to a child element.\<close>

definition exampleRubySentence :: jval where
  "exampleRubySentence =
     JObj [(ascii ''Sentence'',
            JArr [JObj [(ascii ''#text'', JStr (ascii ''ab'')), (ascii ''Ruby'', JStr (ascii ''cd''))]])]"

text \<open>A sentence wrapped in markup that has no text node of its own.\<close>

definition exampleWrapper :: jval where
  "exampleWrapper =
     JObj [(ascii ''Sentence'', JArr [JStr (ascii ''ab''), JObj [(ascii ''Ruby'', JStr (ascii ''cd''))]])]"

text \<open>Two Sentence elements that carry an attribute, each decoded with its text node.\<close>

definition exampleNumberedSentences :: jval where
  "exampleNumberedSentences =
     JObj [(ascii ''Sentence'',
            JArr [JObj [(ascii ''#text'', JStr (ascii ''ab'')), (ascii ''@_Num'', JStr (ascii ''1''))],
                  JObj [(ascii ''#text'', JStr (ascii ''cd'')), (ascii ''@_Num'', JStr (ascii ''2''))]])]"

text \<open>A law whose MainProvision holds one Paragraph and no Article.\<close>

definition exampleParagraphsOnly :: jval where
  "exampleParagraphsOnly = JObj [(ascii ''Paragraph'', JArr [exampleParagraph ''1'' ''first''])]"

definition exampleNoArticles :: jval where
  "exampleNoArticles =
     JObj [(ascii ''Law'',
            JObj [(ascii ''LawBody'', JObj [(ascii ''MainProvision'', exampleParagraphsOnly)])])]"

definition exampleCacheDir :: jstring where
  "exampleCacheDir = ascii ''/home/user/.cache/egov-law-mcp''"

definition exampleCacheSegments :: "jstring list" where
  "exampleCacheSegments = [ascii ''home'', ascii ''user'', ascii ''.cache'', ascii ''egov-law-mcp'']"

text \<open>
  A fresh cache with the default durations; a disk without files or faults; the cache
  after its first operation; the disk after \<open>set\<close> at time 1000 of the string \<open>v\<close> under
  \<open>lawList\<close> and the identifier \<open>q\<close>, and the disk after the same \<open>set\<close> of NaN; a disk
  whose \<open>mkdir\<close> is denied; and a disk whose files are all corrupt.
\<close>

definition exampleCache :: LawCache where
  "exampleCache = newLawCache exampleCacheDir None None None"

definition exampleDisk :: "jsdata fsys" where
  "exampleDisk = \<lparr> files = (\<lambda>path. None), mkdirFault = None,
                    readFault = (\<lambda>path. None), writeFault = (\<lambda>path. None) \<rparr>"

definition exampleCacheReady :: LawCache where
  "exampleCacheReady = exampleCache\<lparr>initialized := True\<rparr>"

definition exampleDiskAfterSet :: "jsdata fsys" where
  "exampleDiskAfterSet =
     exampleDisk\<lparr>files := (files exampleDisk)
       (getCachePath exampleCacheReady (getCacheKey (typeName lawList) (ascii ''q'')) \<mapsto>
          EntryJson \<lparr> data = DStr (ascii ''v''), cachedAt = 1000, expiresAt = 86401000 \<rparr>)\<rparr>"

definition exampleDiskAfterSetNaN :: "jsdata fsys" where
  "exampleDiskAfterSetNaN =
     exampleDisk\<lparr>files := (files exampleDisk)
       (getCachePath exampleCacheReady (getCacheKey (typeName lawList) (ascii ''q'')) \<mapsto>
          EntryJson \<lparr> data = DNull, cachedAt = 1000, expiresAt = 86401000 \<rparr>)\<rparr>"

definition exampleDiskDenied :: "jsdata fsys" where
  "exampleDiskDenied = exampleDisk\<lparr>mkdirFault := Some EACCES\<rparr>"

definition exampleDiskCorrupt :: "jsdata fsys" where
  "exampleDiskCorrupt = exampleDisk\<lparr>files := (\<lambda>path. Some Corrupt)\<rparr>"

text \<open>A server that answers every request with status 200 and a body, and a new session.\<close>

definition exampleNetwork :: network where
  "exampleNetwork = (\<lambda>url n. Replies 200 (ascii ''OK'') (Inr (ascii ''<Law/>'')))"

definition exampleSession :: session where
  "exampleSession = \<lparr> fetched = 0, delays = [] \<rparr>"

section \<open>Properties of the numeral normalizer\<close>

lemma digit_cases: "d < 10 \<Longrightarrow> d = 0 \<or> d = 1 \<or> d = 2 \<or> d = 3 \<or> d = 4 \<or> d = 5 \<or> d = 6 \<or> d = 7 \<or> d = 8 \<or> d = (9::nat)"
  by arith

lemma kanjiNums_digit: "1 \<le> d \<Longrightarrow> d < 10 \<Longrightarrow> kanjiNums (kanjiDigit d) = Some d"
  using digit_cases [of d] by (auto simp: kanjiNums_def kanjiDigit_def)

lemma kanjiNums_juu: "kanjiNums juu = Some 10"
  by (simp add: kanjiNums_def)

lemma kanjiNums_hyaku: "kanjiNums hyaku = Some 100"
  by (simp add: kanjiNums_def)

lemma kanjiLoop_juu: "d < 10 \<Longrightarrow> kanjiLoop (render_unit juu d @ rest) r 0 = kanjiLoop rest (r + d * 10) 0"
  using kanjiNums_digit [of d] by (cases "d = 0") (auto simp: render_unit_def kanjiNums_juu)

lemma kanjiLoop_hyaku: "d < 10 \<Longrightarrow> kanjiLoop (render_unit hyaku d @ rest) r 0 = kanjiLoop rest (r + d * 100) 0"
  using kanjiNums_digit [of d] by (cases "d = 0") (auto simp: render_unit_def kanjiNums_hyaku)

lemma kanjiLoop_ones: "d < 10 \<Longrightarrow> kanjiLoop (if d = 0 then [] else [kanjiDigit d]) r 0 = r + d"
  using kanjiNums_digit [of d] by (cases "d = 0") auto

lemma kanjiLoop_render:
  assumes "v < 1000"
  shows "kanjiLoop (render_kanji v) 0 0 = v"
proof -
  define a b c where "a = v div 100 mod 10" and "b = v div 10 mod 10" and "c = v mod 10"
  have lt: "a < 10" "b < 10" "c < 10" by (simp_all add: a_def b_def c_def)
  have "v div 1000 mod 10 = 0" using assms by simp
  then have "render_kanji v = render_unit hyaku a @ render_unit juu b @ (if c = 0 then [] else [kanjiDigit c])"
    by (simp add: render_kanji_def render_unit_def a_def b_def c_def)
  then have "kanjiLoop (render_kanji v) 0 0 = 0 + a * 100 + b * 10 + c"
    by (simp only: kanjiLoop_hyaku [OF lt(1)] kanjiLoop_juu [OF lt(2)] kanjiLoop_ones [OF lt(3)])
  also have "\<dots> = v"
  proof -
    have "v div 100 < 10" using assms by simp
    then have "a = v div 100" by (simp add: a_def)
    moreover have "v mod 100 = 10 * b + c"
      using mod_mult2_eq [of v 10 10] by (simp add: b_def c_def)
    moreover have "v = 100 * (v div 100) + v mod 100" by simp
    ultimately show ?thesis by simp
  qed
  finally show ?thesis .
qed

lemma kanjiDigit_range: "1 \<le> d \<Longrightarrow> d < 10 \<Longrightarrow> 19968 \<le> kanjiDigit d \<and> kanjiDigit d \<le> 22235 \<and> kanjiDigit d \<noteq> juu"
  using digit_cases [of d] by (auto simp: kanjiDigit_def)

lemma render_unit_set: "d < 10 \<Longrightarrow> c \<in> set (render_unit m d) \<Longrightarrow> c = m \<or> (19968 \<le> c \<and> c \<le> 22235)"
  using kanjiDigit_range [of d] by (auto simp: render_unit_def split: if_splits)

lemma render_kanji_set:
  assumes "c \<in> set (render_kanji v)"
  shows "c = sen \<or> c = hyaku \<or> c = juu \<or> (19968 \<le> c \<and> c \<le> 22235)"
proof -
  have d: "v div 1000 mod 10 < 10" "v div 100 mod 10 < 10" "v div 10 mod 10 < 10" "v mod 10 < 10" by simp_all
  show ?thesis
    using assms render_unit_set [OF d(1), of c sen] render_unit_set [OF d(2), of c hyaku]
      render_unit_set [OF d(3), of c juu] kanjiDigit_range [of "v mod 10"] d(4)
    by (auto simp: render_kanji_def split: if_splits)
qed

lemma matchDigits_none: "\<forall>c \<in> set s. \<not> isDigit c \<Longrightarrow> matchDigits s = None"
  by (simp add: matchDigits_def)

lemma dotPlusJou_exact:
  assumes "k \<noteq> []" "\<forall>c \<in> set k. \<not> isLineTerminator c \<and> c \<noteq> jou"
  shows "dotPlusJou (k @ [jou]) = Some k"
proof -
  have "takeWhile (\<lambda>c. \<not> isLineTerminator c) (k @ [jou]) = k @ [jou]"
    using assms(2) by (simp add: isLineTerminator_def)
  moreover have "2 \<le> length (k @ [jou])" using assms(1) by (cases k) auto
  ultimately show ?thesis
    unfolding dotPlusJou_def by (simp add: Let_def)
qed

lemma render_kanji_nonempty:
  assumes "1 \<le> v" "v < 1000"
  shows "render_kanji v \<noteq> []"
proof
  assume "render_kanji v = []"
  then have "kanjiLoop (render_kanji v) 0 0 = 0" by simp
  then show False using kanjiLoop_render [of v] assms by simp
qed

lemma render_kanji_plain:
  assumes "c \<in> set (render_kanji v)"
  shows "\<not> isLineTerminator c" and "c \<noteq> jou" and "\<not> isDigit c" and "c \<noteq> dai"
  using render_kanji_set [OF assms] by (auto simp: isLineTerminator_def isDigit_def)

lemma matchKanji_designator:
  assumes "1 \<le> v" "v < 1000"
  shows "matchKanji (designator (render_kanji v)) = Some (render_kanji v)"
proof -
  have "\<forall>c \<in> set (render_kanji v). \<not> isLineTerminator c \<and> c \<noteq> jou"
    using render_kanji_plain by blast
  with render_kanji_nonempty [OF assms]
  have "dotPlusJou (render_kanji v @ [jou]) = Some (render_kanji v)"
    by (rule dotPlusJou_exact)
  then show ?thesis by (simp add: designator_def)
qed

lemma matchDigits_designator: "matchDigits (designator (render_kanji v)) = None"
proof -
  have "\<forall>c \<in> set (designator (render_kanji v)). \<not> isDigit c"
    using render_kanji_plain(3) by (auto simp: designator_def isDigit_def)
  then show ?thesis by (rule matchDigits_none)
qed

text \<open>
  Claim C2, as the source supports it.  For every value \<open>v\<close> from 1 to 999, the normalizer
  applied to the article designator that encloses the kanji rendering of \<open>v\<close> between
  the prefix U+7B2C and the suffix U+6761 returns the decimal string of \<open>v\<close>.  The table
  has no entry for thousand, so the round trip stops at 999.
\<close>

theorem normalizeArticleNum_render_kanji:
  assumes "1 \<le> v" and "v \<le> 999"
  shows "normalizeArticleNum (designator (render_kanji v)) = decimal v"
proof -
  from assms have v: "v < 1000" by simp
  show ?thesis
    by (simp add: normalizeArticleNum_def matchDigits_designator
        matchKanji_designator [OF assms(1) v] kanjiLoop_render [OF v])
qed

text \<open>The four designators the claim names: bare ten, bare hundred, twenty and 123.\<close>

theorem normalizeArticleNum_render_kanji_witness:
  "normalizeArticleNum (designator [juu]) = ascii ''10'' \<and>
   normalizeArticleNum (designator [hyaku]) = ascii ''100'' \<and>
   normalizeArticleNum (designator [20108, juu]) = ascii ''20'' \<and>
   normalizeArticleNum (designator [hyaku, 20108, juu, 19977]) = ascii ''123''"
  using normalizeArticleNum_render_kanji [of 10] normalizeArticleNum_render_kanji [of 100]
    normalizeArticleNum_render_kanji [of 20] normalizeArticleNum_render_kanji [of 123]
  by (simp add: render_kanji_def render_unit_def kanjiDigit_def decimal.simps ascii_def)

text \<open>
  The claim as stated reaches 9999.  The rendering of 1000 is the single kanji for
  thousand, which the loop skips: the normalizer returns \<open>0\<close>.
\<close>

theorem normalizeArticleNum_sen_counterexample:
  "render_kanji 1000 = [sen] \<and>
   normalizeArticleNum (designator (render_kanji 1000)) = ascii ''0'' \<and>
   decimal 1000 = ascii ''1000'' \<and>
   normalizeArticleNum (designator (render_kanji 1000)) \<noteq> decimal 1000"
  by (simp add: render_kanji_def render_unit_def normalizeArticleNum_def matchDigits_def
      isDigit_def designator_def dotPlusJou_def isLineTerminator_def kanjiNums_def
      decimal.simps ascii_def)

section \<open>Properties of the article locator\<close>

lemma find_append_case:
  "find P (xs @ ys) = (case find P xs of Some x \<Rightarrow> Some x | None \<Rightarrow> find P ys)"
  by (induction xs) auto

lemma find_in_set: "find P xs = Some x \<Longrightarrow> x \<in> set xs"
  by (induction xs) (auto split: if_splits)

lemma firstTruthy_find_concat:
  assumes "\<And>x. x \<in> set xs \<Longrightarrow> f x = find P (g x)"
    and "\<And>x. x \<in> set xs \<Longrightarrow> list_all truthy (g x)"
  shows "firstTruthy f xs = find P (concat (map g xs))"
  using assms
proof (induction xs)
  case Nil
  then show ?case by simp
next
  case (Cons x xs)
  have fx: "f x = find P (g x)" using Cons.prems(1) by simp
  have tx: "list_all truthy (g x)" using Cons.prems(2) by simp
  have IH: "firstTruthy f xs = find P (concat (map g xs))"
    using Cons.IH Cons.prems by simp
  show ?case
  proof (cases "find P (g x)")
    case None
    then show ?thesis using fx IH by (simp add: find_append_case)
  next
    case (Some a)
    then have "a \<in> set (g x)" by (rule find_in_set)
    then have "truthy a" using tx by (simp add: list_all_iff)
    then show ?thesis using fx Some by (simp add: find_append_case)
  qed
qed

lemma articlesInOrder_child:
  assumes "list_all truthy (articlesInOrder node)" "key \<in> set containerKeys"
    "child \<in> set (ensureArray (field node key))"
  shows "list_all truthy (articlesInOrder child)"
proof -
  have "set (articlesInOrder child) \<subseteq> set (articlesInOrder node)"
    using assms(2,3) by (subst (2) articlesInOrder.simps) auto
  then show ?thesis using assms(1) by (auto simp: list_all_iff)
qed

lemma findArticleRecursive_find:
  "list_all truthy (articlesInOrder node) \<Longrightarrow>
   findArticleRecursive L node targetNum =
     find (\<lambda>article. StringOpt L (field article ''@_Num'') = targetNum) (articlesInOrder node)"
proof (induction L node targetNum rule: findArticleRecursive.induct)
  case (1 L node targetNum)
  let ?P = "\<lambda>article. StringOpt L (field article ''@_Num'') = targetNum"
  show ?case
  proof (cases "find ?P (ensureArray (field node ''Article''))")
    case (Some a)
    then show ?thesis
      by (subst findArticleRecursive.simps, subst articlesInOrder.simps) (simp add: find_append_case)
  next
    case None
    have inner: "firstTruthy (\<lambda>child. findArticleRecursive L child targetNum) (ensureArray (field node key))
        = find ?P (concat (map articlesInOrder (ensureArray (field node key))))"
      if "key \<in> set containerKeys" for key
    proof (rule firstTruthy_find_concat)
      fix child assume c: "child \<in> set (ensureArray (field node key))"
      show t: "list_all truthy (articlesInOrder child)"
        using articlesInOrder_child [OF "1.prems" that c] .
      show "findArticleRecursive L child targetNum = find ?P (articlesInOrder child)"
        using "1.IH" [OF None that c t] .
    qed
    have outer: "firstTruthy
            (\<lambda>key. firstTruthy (\<lambda>child. findArticleRecursive L child targetNum)
                     (ensureArray (field node key))) containerKeys
        = find ?P (concat (map (\<lambda>key. concat (map articlesInOrder (ensureArray (field node key)))) containerKeys))"
    proof (rule firstTruthy_find_concat)
      fix key assume k: "key \<in> set containerKeys"
      show "firstTruthy (\<lambda>child. findArticleRecursive L child targetNum) (ensureArray (field node key))
        = find ?P (concat (map articlesInOrder (ensureArray (field node key))))"
        using inner [OF k] .
      show "list_all truthy (concat (map articlesInOrder (ensureArray (field node key))))"
        using articlesInOrder_child [OF "1.prems" k] by (auto simp: list_all_iff)
    qed
    show ?thesis
      apply (subst findArticleRecursive.simps)
      apply (subst articlesInOrder.simps)
      apply (simp only: None option.case find_append_case outer)
      done
  qed
qed

text \<open>
  Claim C1.  On a tree whose Article entries are all truthy (an Article element with an
  attribute or a child decodes to an object, which is), \<open>findArticle\<close> normalizes the
  designator and returns the first Article, in the order that lists a container's own
  Articles before those of its nested containers, whose ordinal as a string equals the
  normalized target; the result is \<open>null\<close> exactly when no Article of the tree matches.
\<close>

theorem findArticle_first_match:
  assumes "field lawBody ''MainProvision'' = Some mainProvision"
    and "truthy mainProvision"
    and "list_all truthy (articlesInOrder mainProvision)"
  shows "findArticle L lawBody target =
           find (\<lambda>article. StringOpt L (field article ''@_Num'') = normalizeArticleNum target)
             (articlesInOrder mainProvision) \<and>
         ((findArticle L lawBody target = None) =
          (\<forall>article \<in> set (articlesInOrder mainProvision).
             StringOpt L (field article ''@_Num'') \<noteq> normalizeArticleNum target))"
proof -
  have "findArticle L lawBody target = findArticleRecursive L mainProvision (normalizeArticleNum target)"
    using assms(1,2) by (simp add: findArticle_def)
  then have eq: "findArticle L lawBody target =
      find (\<lambda>article. StringOpt L (field article ''@_Num'') = normalizeArticleNum target)
        (articlesInOrder mainProvision)"
    using findArticleRecursive_find [OF assms(3)] by simp
  show ?thesis
    unfolding eq by (auto simp: find_None_iff)
qed

lemma articlesInOrder_exampleChapters:
  "articlesInOrder exampleChapters =
     [exampleArticle ''1'', exampleArticle ''2'', exampleArticle ''20'', exampleArticle ''100'']"
  by (simp add: articlesInOrder.simps exampleChapters_def exampleArticle_def ascii_def)

lemma normalize_example: "normalizeArticleNum (designator [20108, juu]) = ascii ''20''"
    by (simp add: normalizeArticleNum_def matchDigits_def
      isDigit_def designator_def dotPlusJou_def isLineTerminator_def kanjiNums_def
      decimal.simps ascii_def)

text \<open>
  The tree of the claim: Articles 1, 2, 20 and 100 under two Chapters.  The designator
  for twenty finds Article 20, not Article 2.
\<close>

theorem findArticle_first_match_witness:
  "truthy exampleChapters \<and> list_all truthy (articlesInOrder exampleChapters) \<and>
   findArticle (exampleLib (\<lambda>xml. Inl [])) (JObj [(ascii ''MainProvision'', exampleChapters)])
     (designator [20108, juu]) = Some (exampleArticle ''20'')"
  using findArticle_first_match [of "JObj [(ascii ''MainProvision'', exampleChapters)]" exampleChapters
      "exampleLib (\<lambda>xml. Inl [])" "designator [20108, juu]"]
  by (simp add: articlesInOrder_exampleChapters normalize_example)
    (simp add: exampleChapters_def exampleArticle_def ascii_def)

section \<open>Properties of text extraction and of the renderer\<close>

lemma extractText_JStr: "extractText L (Some (JStr s)) = s"
  by (subst extractText.simps) simp

lemma extractText_JNum: "extractText L (Some (JNum n)) = (if truthy (JNum n) then NumberToString L n else [])"
  by (subst extractText.simps) simp

lemma extractText_JBool: "extractText L (Some (JBool b)) = []"
  by (subst extractText.simps) simp

lemma extractText_JArr:
  "extractText L (Some (JArr xs)) =
     concat (concat (map
       (\<lambda>v. case v of
              JStr s \<Rightarrow> [s]
            | JArr vs \<Rightarrow> map (\<lambda>x. extractText L (Some x)) vs
            | JObj kvs \<Rightarrow> [extractText L (Some v)]
            | _ \<Rightarrow> []) xs))"
  by (subst extractText.simps) simp

lemma extractText_JObj:
  "extractText L (Some (JObj kvs)) =
     (if truthyOpt (field (JObj kvs) ''#text'') then StringOpt L (field (JObj kvs) ''#text'')
      else concat (concat (map
       (\<lambda>v. case v of
              JStr s \<Rightarrow> [s]
            | JArr vs \<Rightarrow> map (\<lambda>x. extractText L (Some x)) vs
            | JObj kvs \<Rightarrow> [extractText L (Some v)]
            | _ \<Rightarrow> []) (map snd kvs))))"
  by (subst extractText.simps) simp

lemmas extractText_eval = extractText_JStr extractText_JNum extractText_JBool extractText_JArr extractText_JObj

lemma paragraphParts_filter:
  "paragraphParts L (Some p) paras =
     map (extractParagraphContent L)
       (filter (\<lambda>para. strictEq (Number L (field para ''@_Num'')) p) paras)"
  by (induction paras) simp_all

text \<open>
  Claim C9.  With a paragraph filter \<open>p\<close>, \<open>extractArticleContent\<close> renders, after the
  Article's caption and title lines, the Paragraphs whose number is strictly equal to
  \<open>p\<close> and no other Paragraph.
\<close>

theorem extractArticleContent_paragraph_filter:
  "extractArticleContent L article (Some p) =
     join [10] (articleHeading L article @
       map (extractParagraphContent L)
         (filter (\<lambda>para. strictEq (Number L (field para ''@_Num'')) p)
            (ensureArray (field article ''Paragraph''))))"
  by (simp add: extractArticleContent_def paragraphParts_filter)

text \<open>
  An Article of two Paragraphs under the filter 2: the output is the second Paragraph's
  text behind its number, and nothing of the first.
\<close>

theorem extractArticleContent_paragraph_filter_witness:
  "extractArticleContent (exampleLib (\<lambda>xml. Inl [])) exampleTwoParagraphs (Some (Fin 2)) =
     [50, wideSpace] @ ascii ''second''"
  using extractArticleContent_paragraph_filter [of "exampleLib (\<lambda>xml. Inl [])" exampleTwoParagraphs "Fin 2"]
  by (simp add: exampleTwoParagraphs_def exampleParagraph_def articleHeading_def
      extractParagraphContent_def extractSentenceText_def orElse_def extractText_eval
      strictEq_def exampleLib_def digitsValue_def isDigit_def ascii_def Let_def)

lemma concat_concat_map: "concat (concat (map f xs)) = concat (map (\<lambda>x. concat (f x)) xs)"
  by (induction xs) simp_all

lemma extractText_JArr_valueTexts:
  "extractText L (Some (JArr xs)) = concat (map (\<lambda>x. concat (valueTexts L x)) xs)"
  unfolding extractText_JArr valueTexts_def by (rule concat_concat_map)

lemma extractText_JObj_valueTexts:
  assumes "\<not> truthyOpt (field (JObj kvs) ''#text'')"
  shows "extractText L (Some (JObj kvs)) = concat (map (\<lambda>kv. concat (valueTexts L (snd kv))) kvs)"
proof -
  have "extractText L (Some (JObj kvs)) = concat (concat (map (valueTexts L) (map snd kvs)))"
    using assms unfolding extractText_JObj valueTexts_def by simp
  also have "\<dots> = concat (map (\<lambda>x. concat (valueTexts L x)) (map snd kvs))"
    by (rule concat_concat_map)
  finally show ?thesis by (simp add: comp_def)
qed

lemma concat_map_cong: "(\<And>x. x \<in> set xs \<Longrightarrow> f x = g x) \<Longrightarrow> concat (map f xs) = concat (map g xs)"
  by (induction xs) simp_all

lemma extractText_markupOnly_both:
  "markupOnly v \<Longrightarrow> extractText L (Some v) = allText v \<and> concat (valueTexts L v) = allText v"
proof (induction v rule: allText.induct)
  case (1 s)
  then show ?case by (simp add: extractText_JStr valueTexts_def)
next
  case (2 n)
  then show ?case by simp
next
  case (3 b)
  then show ?case by simp
next
  case (4 xs)
  have IH: "\<And>x. x \<in> set xs \<Longrightarrow> extractText L (Some x) = allText x \<and> concat (valueTexts L x) = allText x"
    using 4 by (simp add: list_all_iff)
  have a: "extractText L (Some (JArr xs)) = allText (JArr xs)"
    unfolding extractText_JArr_valueTexts allText.simps
    by (rule concat_map_cong) (simp add: IH)
  have b: "concat (valueTexts L (JArr xs)) = allText (JArr xs)"
    unfolding valueTexts_def jval.case allText.simps
    by (rule concat_map_cong) (simp add: IH)
  show ?case using a b by simp
next
  case (5 kvs)
  have no: "\<not> truthyOpt (field (JObj kvs) ''#text'')" using "5.prems" by simp
  have IH: "\<And>kv. kv \<in> set kvs \<Longrightarrow> concat (valueTexts L (snd kv)) = allText (snd kv)"
    using 5 by (simp add: list_all_iff)
  have a: "extractText L (Some (JObj kvs)) = allText (JObj kvs)"
    unfolding extractText_JObj_valueTexts [OF no] allText.simps
    by (rule concat_map_cong) (simp add: IH)
  show ?case using a by (simp add: valueTexts_def)
qed

lemma markupOnly_children:
  "markupOnly v \<Longrightarrow> x \<in> set (ensureArray (field v key)) \<Longrightarrow> markupOnly x"
proof (cases v)
  case (JObj kvs)
  assume m: "markupOnly v" and x: "x \<in> set (ensureArray (field v key))"
  then obtain w where w: "map_of kvs (ascii key) = Some w" using JObj by (cases "map_of kvs (ascii key)") auto
  then have "(ascii key, w) \<in> set kvs" by (rule map_of_SomeD)
  then have mw: "markupOnly w" using m JObj by (auto simp: list_all_iff)
  show ?thesis using x w mw JObj by (cases w) (auto simp: list_all_iff)
qed auto

lemma extractText_textOf_both:
  "extractText L (Some v) = textOf L v" "concat (valueTexts L w) = memberText L w"
proof (induction L v and L w rule: textOf_memberText.induct)
  case (1 L s)
  show ?case by (simp add: extractText_JStr)
next
  case (2 L n)
  show ?case by (simp add: extractText_JNum)
next
  case (3 L b)
  show ?case by (simp add: extractText_JBool)
next
  case (4 L xs)
  show ?case
    unfolding extractText_JArr_valueTexts textOf.simps
    by (rule concat_map_cong) (rule 4)
next
  case (5 L kvs)
  show ?case
  proof (cases "truthyOpt (field (JObj kvs) ''#text'')")
    case True
    then show ?thesis by (simp add: extractText_JObj)
  next
    case False
    have "concat (map (\<lambda>kv. concat (valueTexts L (snd kv))) kvs) =
          concat (map (\<lambda>kv. memberText L (snd kv)) kvs)"
      by (rule concat_map_cong) (rule 5 [OF False])
    then show ?thesis
      unfolding extractText_JObj_valueTexts [OF False] using False by simp
  qed
next
  case (6 L s)
  show ?case by (simp add: valueTexts_def)
next
  case (7 L n)
  show ?case by (simp add: valueTexts_def)
next
  case (8 L b)
  show ?case by (simp add: valueTexts_def)
next
  case (9 L xs)
  have "concat (map (\<lambda>x. extractText L (Some x)) xs) = concat (map (textOf L) xs)"
    by (rule concat_map_cong) (rule 9)
  then show ?case by (simp add: valueTexts_def)
next
  case (10 L kvs)
  then show ?case by (simp add: valueTexts_def)
qed

lemma extractSentenceText_textOf:
  "extractSentenceText L (Some v) =
     (case v of
        JStr s \<Rightarrow> s
      | _ \<Rightarrow> if truthy v
             then concat (map (textOf L) (ensureArray (orElse (field v ''Sentence'') (Some v))))
             else [])"
proof -
  have "concat (map (\<lambda>x. extractText L (Some x)) xs) = concat (map (textOf L) xs)" for xs
    by (rule concat_map_cong) (rule extractText_textOf_both(1))
  then show ?thesis
    by (cases v) (simp_all add: extractSentenceText_def)
qed

text \<open>
  Claim C8, as the source supports it.  Sentence-text extraction returns the field itself
  when it is a string and the empty string when the field is absent or falsy.  Otherwise
  it takes the field's \<open>Sentence\<close> entries (the field itself when it has none) and
  concatenates the text of each entry in order, where the text of a value is \<open>textOf\<close>:
  \<open>extractText\<close> computes \<open>textOf\<close> on every value.  For an object with a truthy
  \<open>#text\<close> entry that text is the entry's string alone: the object's other entries are
  ignored.  For markup that holds only strings, arrays and objects without a truthy
  \<open>#text\<close> entry, it is the concatenation of every descendant string in field order,
  and \<open>extractSentenceText\<close> is that concatenation over the field's \<open>Sentence\<close> entries
  when it has them and over the field itself otherwise.
\<close>

theorem extractSentenceText_markup:
  "extractSentenceText L (Some (JStr s)) = s \<and>
   (markupOnly v \<longrightarrow> extractText L (Some v) = allText v) \<and>
   (markupOnly v \<longrightarrow> \<not> truthyOpt (field v ''Sentence'') \<longrightarrow> extractSentenceText L (Some v) = allText v) \<and>
   (markupOnly v \<longrightarrow> truthyOpt (field v ''Sentence'') \<longrightarrow>
      extractSentenceText L (Some v) = concat (map allText (ensureArray (field v ''Sentence'')))) \<and>
   (truthyOpt (field (JObj kvs) ''#text'') \<longrightarrow>
      extractText L (Some (JObj kvs)) = StringOpt L (field (JObj kvs) ''#text'')) \<and>
   extractText L (Some v) = textOf L v \<and>
   extractSentenceText L None = [] \<and>
   extractSentenceText L (Some v) =
     (case v of
        JStr s \<Rightarrow> s
      | _ \<Rightarrow> if truthy v
             then concat (map (textOf L) (ensureArray (orElse (field v ''Sentence'') (Some v))))
             else [])"
proof (intro conjI impI)
  show "extractSentenceText L (Some (JStr s)) = s"
    by (simp add: extractSentenceText_def)
  show "extractText L (Some v) = allText v" if "markupOnly v"
    using extractText_markupOnly_both [OF that] by simp
  show "extractSentenceText L (Some v) = allText v"
    if m: "markupOnly v" and n: "\<not> truthyOpt (field v ''Sentence'')"
  proof (cases v)
    case (JArr xs)
    have "\<And>x. x \<in> set xs \<Longrightarrow> extractText L (Some x) = allText x"
      using m JArr extractText_markupOnly_both by (auto simp: list_all_iff)
    then have "concat (map (\<lambda>x. extractText L (Some x)) xs) = concat (map allText xs)"
      by (rule concat_map_cong)
    then show ?thesis using JArr by (simp add: extractSentenceText_def orElse_def)
  next
    case (JObj kvs)
    then show ?thesis
      using n extractText_markupOnly_both [OF m, of L]
      by (simp add: extractSentenceText_def orElse_def)
  qed (use m in \<open>simp_all add: extractSentenceText_def\<close>)
  show "extractSentenceText L (Some v) = concat (map allText (ensureArray (field v ''Sentence'')))"
    if m: "markupOnly v" and n: "truthyOpt (field v ''Sentence'')"
  proof -
    have "\<And>x. x \<in> set (ensureArray (field v ''Sentence'')) \<Longrightarrow> extractText L (Some x) = allText x"
      using markupOnly_children [OF m] extractText_markupOnly_both by blast
    then have eq: "concat (map (\<lambda>x. extractText L (Some x)) (ensureArray (field v ''Sentence'')))
        = concat (map allText (ensureArray (field v ''Sentence'')))"
      by (rule concat_map_cong)
    show ?thesis
      using n eq by (cases v) (simp_all add: extractSentenceText_def orElse_def)
  qed
  show "extractText L (Some (JObj kvs)) = StringOpt L (field (JObj kvs) ''#text'')"
    if "truthyOpt (field (JObj kvs) ''#text'')"
    using that by (simp add: extractText_JObj)
  show "extractText L (Some v) = textOf L v"
    by (rule extractText_textOf_both(1))
  show "extractSentenceText L None = []"
    by (simp add: extractSentenceText_def)
  show "extractSentenceText L (Some v) =
     (case v of
        JStr s \<Rightarrow> s
      | _ \<Rightarrow> if truthy v
             then concat (map (textOf L) (ensureArray (orElse (field v ''Sentence'') (Some v))))
             else [])"
    by (rule extractSentenceText_textOf)
qed

text \<open>
  A wrapped sentence gives all its strings; a text node hides the child beside it; two
  Sentence elements with an attribute give their two text nodes, one after the other.
\<close>

theorem extractSentenceText_markup_witness:
  "markupOnly exampleWrapper \<and>
   extractSentenceText (exampleLib (\<lambda>xml. Inl [])) (Some exampleWrapper) = ascii ''abcd'' \<and>
   markupOnly (JArr [JStr (ascii ''ab''), JObj [(ascii ''Ruby'', JStr (ascii ''cd''))]]) \<and>
   extractSentenceText (exampleLib (\<lambda>xml. Inl []))
     (Some (JArr [JStr (ascii ''ab''), JObj [(ascii ''Ruby'', JStr (ascii ''cd''))]])) = ascii ''abcd'' \<and>
   extractText (exampleLib (\<lambda>xml. Inl []))
     (Some (JObj [(ascii ''#text'', JStr (ascii ''ab'')), (ascii ''Ruby'', JStr (ascii ''cd''))]))
     = ascii ''ab'' \<and>
   extractSentenceText (exampleLib (\<lambda>xml. Inl [])) (Some exampleNumberedSentences) = ascii ''abcd''"
  using extractSentenceText_markup [of "exampleLib (\<lambda>xml. Inl [])" "[]" exampleWrapper
      "[(ascii ''#text'', JStr (ascii ''ab'')), (ascii ''Ruby'', JStr (ascii ''cd''))]"]
    extractSentenceText_markup [of "exampleLib (\<lambda>xml. Inl [])" "[]"
      "JArr [JStr (ascii ''ab''), JObj [(ascii ''Ruby'', JStr (ascii ''cd''))]]" "[]"]
    extractSentenceText_markup [of "exampleLib (\<lambda>xml. Inl [])" "[]" exampleNumberedSentences "[]"]
  by (simp add: exampleWrapper_def exampleNumberedSentences_def orElse_def ascii_def)

text \<open>
  The claim as stated includes a wrapper that holds a text node and other child fields.
  There the source returns the text node only, not every descendant string.
\<close>

theorem extractSentenceText_text_node_counterexample:
  "extractSentenceText (exampleLib (\<lambda>xml. Inl [])) (Some exampleRubySentence) = ascii ''ab'' \<and>
   allText exampleRubySentence = ascii ''abcd''"
  by (simp add: exampleRubySentence_def extractSentenceText_def orElse_def extractText_eval ascii_def)

section \<open>Properties of the document builder\<close>

lemma ascii_eq_iff [simp]: "(ascii a = ascii b) = (a = b)"
  by (simp add: ascii_def inj_map_eq_map [OF inj_of_char])

lemma buildLawText_content: "content (buildLawText L now result) = extractLawContent L (lawBodyOf result)"
  by (simp add: buildLawText_def lawBodyOf_def Let_def)

lemma buildLawText_toc: "toc (buildLawText L now result) = extractToc L (lawBodyOf result)"
  by (simp add: buildLawText_def lawBodyOf_def Let_def)

lemma extractToc_no_main: "\<not> truthyOpt (field lawBody ''MainProvision'') \<Longrightarrow> extractToc L lawBody = []"
  by (cases "field lawBody ''MainProvision''") (simp_all add: extractToc_def)

lemma extractToc_empty_main:
  assumes "field lawBody ''MainProvision'' = Some mainProvision"
    and "ensureArray (field mainProvision ''Part'') = []"
    and "ensureArray (field mainProvision ''Chapter'') = []"
    and "ensureArray (field mainProvision ''Article'') = []"
  shows "extractToc L lawBody = []"
  using assms by (simp add: extractToc_def)

lemma extractLawContent_nothing:
  assumes "\<not> truthyOpt (field lawBody ''Preamble'')"
    and "\<not> truthyOpt (field lawBody ''MainProvision'')"
    and "\<not> truthyOpt (field lawBody ''SupplementaryProvisions'')"
  shows "extractLawContent L lawBody = []"
  using assms
  by (cases "field lawBody ''Preamble''"; cases "field lawBody ''MainProvision''")
    (simp_all add: extractLawContent_def)

lemma extractLawContent_empty_main:
  assumes "\<not> truthyOpt (field lawBody ''Preamble'')"
    and "field lawBody ''MainProvision'' = Some mainProvision" and "truthy mainProvision"
    and "ensureArray (field mainProvision ''Part'') = []"
    and "ensureArray (field mainProvision ''Chapter'') = []"
    and "ensureArray (field mainProvision ''Article'') = []"
    and "\<not> truthyOpt (field lawBody ''SupplementaryProvisions'')"
  shows "extractLawContent L lawBody = ascii ''## '' @ [26412, 21063, 10, 10]"
  using assms
  by (cases "field lawBody ''Preamble''")
    (simp_all add: extractLawContent_def extractMainProvisionContent_def)

text \<open>
  Claim C7, as the source supports it.  \<open>parseLawText\<close> fails exactly when the decoder
  throws; on every decoded document it returns a document.  Without a truthy
  MainProvision the table of contents is empty, and without a truthy Preamble,
  MainProvision and SupplementaryProvisions the content is the empty string.  A
  MainProvision that is present but holds no Part, Chapter or Article (and no Preamble
  or SupplementaryProvisions beside it) gives an empty table of contents and a content
  that is the MainProvision heading followed by an empty line.
\<close>

theorem parseLawText_without_articles:
  "((\<exists>message. parseLawText L now xml = Inl message) = (\<exists>message. xmlParse L xml = Inl message)) \<and>
   (xmlParse L xml = Inr result \<longrightarrow> parseLawText L now xml = Inr (buildLawText L now result)) \<and>
   (\<not> truthyOpt (field (lawBodyOf result) ''MainProvision'') \<longrightarrow>
      toc (buildLawText L now result) = []) \<and>
   (\<not> truthyOpt (field (lawBodyOf result) ''Preamble'') \<and>
    \<not> truthyOpt (field (lawBodyOf result) ''MainProvision'') \<and>
    \<not> truthyOpt (field (lawBodyOf result) ''SupplementaryProvisions'') \<longrightarrow>
      content (buildLawText L now result) = []) \<and>
   (\<not> truthyOpt (field (lawBodyOf result) ''Preamble'') \<and>
    field (lawBodyOf result) ''MainProvision'' = Some mainProvision \<and> truthy mainProvision \<and>
    ensureArray (field mainProvision ''Part'') = [] \<and>
    ensureArray (field mainProvision ''Chapter'') = [] \<and>
    ensureArray (field mainProvision ''Article'') = [] \<and>
    \<not> truthyOpt (field (lawBodyOf result) ''SupplementaryProvisions'') \<longrightarrow>
      toc (buildLawText L now result) = [] \<and>
      content (buildLawText L now result) = ascii ''## '' @ [26412, 21063, 10, 10])"
proof (intro conjI impI)
  show "(\<exists>message. parseLawText L now xml = Inl message) = (\<exists>message. xmlParse L xml = Inl message)"
    by (cases "xmlParse L xml") (simp_all add: parseLawText_def)
  show "parseLawText L now xml = Inr (buildLawText L now result)" if "xmlParse L xml = Inr result"
    using that by (simp add: parseLawText_def)
  show "toc (buildLawText L now result) = []"
    if "\<not> truthyOpt (field (lawBodyOf result) ''MainProvision'')"
    using that by (simp add: buildLawText_toc extractToc_no_main)
  show "content (buildLawText L now result) = []"
    if "\<not> truthyOpt (field (lawBodyOf result) ''Preamble'') \<and>
        \<not> truthyOpt (field (lawBodyOf result) ''MainProvision'') \<and>
        \<not> truthyOpt (field (lawBodyOf result) ''SupplementaryProvisions'')"
    using that by (simp add: buildLawText_content extractLawContent_nothing)
  assume a: "\<not> truthyOpt (field (lawBodyOf result) ''Preamble'') \<and>
    field (lawBodyOf result) ''MainProvision'' = Some mainProvision \<and> truthy mainProvision \<and>
    ensureArray (field mainProvision ''Part'') = [] \<and>
    ensureArray (field mainProvision ''Chapter'') = [] \<and>
    ensureArray (field mainProvision ''Article'') = [] \<and>
    \<not> truthyOpt (field (lawBodyOf result) ''SupplementaryProvisions'')"
  show "toc (buildLawText L now result) = []"
    using a by (simp add: buildLawText_toc extractToc_empty_main)
  show "content (buildLawText L now result) = ascii ''## '' @ [26412, 21063, 10, 10]"
    using a by (simp add: buildLawText_content extractLawContent_empty_main del: append.simps)
qed

lemma truthy_exampleParagraphsOnly: "truthy exampleParagraphsOnly"
  by (simp add: exampleParagraphsOnly_def)

lemma lawBodyOf_exampleNoArticles:
  "lawBodyOf exampleNoArticles = JObj [(ascii ''MainProvision'', exampleParagraphsOnly)]"
  by (simp add: lawBodyOf_def lawDataOf_def applDataOf_def exampleNoArticles_def ascii_def)

lemma lawBodyOf_empty: "lawBodyOf (JObj []) = JObj []"
  by (simp add: lawBodyOf_def lawDataOf_def applDataOf_def)

lemma exampleParagraphsOnly_fields:
  "field exampleParagraphsOnly ''Part'' = None"
  "field exampleParagraphsOnly ''Chapter'' = None"
  "field exampleParagraphsOnly ''Article'' = None"
  "field exampleParagraphsOnly ''Section'' = None"
  "field exampleParagraphsOnly ''Subsection'' = None"
  "field exampleParagraphsOnly ''Division'' = None"
  by (simp_all add: exampleParagraphsOnly_def ascii_def)

lemma exampleBody_fields:
  "field (JObj [(ascii ''MainProvision'', exampleParagraphsOnly)]) ''Preamble'' = None"
  "field (JObj [(ascii ''MainProvision'', exampleParagraphsOnly)]) ''MainProvision'' = Some exampleParagraphsOnly"
  "field (JObj [(ascii ''MainProvision'', exampleParagraphsOnly)]) ''SupplementaryProvisions'' = None"
  by (simp_all add: ascii_def)

lemma buildLawText_heads_empty:
  "lawId (buildLawText L now (JObj [])) = []"
  "lawNumber (buildLawText L now (JObj [])) = []"
  "lawName (buildLawText L now (JObj [])) = []"
  "fetchedAt (buildLawText L now (JObj [])) = now"
  by (simp_all add: buildLawText_def lawDataOf_def applDataOf_def orElse_def extractText_JStr Let_def)

lemma buildLawText_heads_exampleNoArticles:
  "lawId (buildLawText L now exampleNoArticles) = []"
  "lawNumber (buildLawText L now exampleNoArticles) = []"
  "lawName (buildLawText L now exampleNoArticles) = []"
  "fetchedAt (buildLawText L now exampleNoArticles) = now"
  by (simp_all add: buildLawText_def lawDataOf_def applDataOf_def orElse_def extractText_JStr Let_def
      exampleNoArticles_def ascii_def)

lemma LawText_eqI:
  "lawId r = a \<Longrightarrow> lawNumber r = b \<Longrightarrow> lawName r = c \<Longrightarrow> content r = d \<Longrightarrow> toc r = e \<Longrightarrow>
   fetchedAt r = f \<Longrightarrow>
   (r :: LawText) = \<lparr> lawId = a, lawNumber = b, lawName = c, content = d, toc = e, fetchedAt = f \<rparr>"
  by (cases r) simp

text \<open>The empty document, and the law whose MainProvision holds a Paragraph only.\<close>

theorem parseLawText_without_articles_witness:
  "parseLawText (exampleLib (\<lambda>xml. Inr (JObj []))) 0 [] =
     Inr \<lparr> lawId = [], lawNumber = [], lawName = [], content = [], toc = [], fetchedAt = 0 \<rparr> \<and>
   toc (buildLawText (exampleLib (\<lambda>xml. Inr exampleNoArticles)) 0 exampleNoArticles) = [] \<and>
   content (buildLawText (exampleLib (\<lambda>xml. Inr exampleNoArticles)) 0 exampleNoArticles) =
     ascii ''## '' @ [26412, 21063, 10, 10]"
proof -
  let ?L = "exampleLib (\<lambda>xml. Inr (JObj []))"
  let ?M = "exampleLib (\<lambda>xml. Inr exampleNoArticles)"
  have d: "xmlParse ?L [] = Inr (JObj [])" by (simp add: exampleLib_def)
  note a = parseLawText_without_articles [of ?L 0 "[]" "JObj []" "JObj []"]
  have 1: "parseLawText ?L 0 [] = Inr (buildLawText ?L 0 (JObj []))" using a d by blast
  have 2: "toc (buildLawText ?L 0 (JObj [])) = []" using a by (simp add: lawBodyOf_empty)
  have 3: "content (buildLawText ?L 0 (JObj [])) = []" using a by (simp add: lawBodyOf_empty)
  have r: "buildLawText ?L 0 (JObj []) =
      \<lparr> lawId = [], lawNumber = [], lawName = [], content = [], toc = [], fetchedAt = 0 \<rparr>"
    by (rule LawText_eqI) (simp_all only: buildLawText_heads_empty 2 3)
  note b = parseLawText_without_articles [of ?M 0 "[]" exampleNoArticles exampleParagraphsOnly]
  have h: "\<not> truthyOpt (field (lawBodyOf exampleNoArticles) ''Preamble'') \<and>
    field (lawBodyOf exampleNoArticles) ''MainProvision'' = Some exampleParagraphsOnly \<and>
    truthy exampleParagraphsOnly \<and>
    ensureArray (field exampleParagraphsOnly ''Part'') = [] \<and>
    ensureArray (field exampleParagraphsOnly ''Chapter'') = [] \<and>
    ensureArray (field exampleParagraphsOnly ''Article'') = [] \<and>
    \<not> truthyOpt (field (lawBodyOf exampleNoArticles) ''SupplementaryProvisions'')"
    by (simp add: lawBodyOf_exampleNoArticles exampleParagraphsOnly_fields
        truthy_exampleParagraphsOnly ascii_def)
  have 4: "toc (buildLawText ?M 0 exampleNoArticles) = [] \<and>
      content (buildLawText ?M 0 exampleNoArticles) = ascii ''## '' @ [26412, 21063, 10, 10]"
    using b [THEN conjunct2, THEN conjunct2, THEN conjunct2, THEN conjunct2, THEN mp, OF h] .
  show ?thesis using 1 r 4 by simp
qed

text \<open>
  The claim as stated promises an empty content whenever there is no Article.  A
  MainProvision without any Article still gets its heading.
\<close>

theorem parseLawText_heading_counterexample:
  "articlesInOrder exampleParagraphsOnly = [] \<and>
   field (lawBodyOf exampleNoArticles) ''MainProvision'' = Some exampleParagraphsOnly \<and>
   content (buildLawText (exampleLib (\<lambda>xml. Inr exampleNoArticles)) 0 exampleNoArticles) =
     ascii ''## '' @ [26412, 21063, 10, 10] \<and>
   content (buildLawText (exampleLib (\<lambda>xml. Inr exampleNoArticles)) 0 exampleNoArticles) \<noteq> []"
proof -
  have 1: "articlesInOrder exampleParagraphsOnly = []"
    by (simp add: articlesInOrder.simps [of exampleParagraphsOnly] exampleParagraphsOnly_fields)
  have 2: "field (lawBodyOf exampleNoArticles) ''MainProvision'' = Some exampleParagraphsOnly"
    by (simp add: lawBodyOf_exampleNoArticles exampleBody_fields)
  have 3: "content (buildLawText (exampleLib (\<lambda>xml. Inr exampleNoArticles)) 0 exampleNoArticles) =
     ascii ''## '' @ [26412, 21063, 10, 10]"
    unfolding buildLawText_content lawBodyOf_exampleNoArticles
    by (rule extractLawContent_empty_main [where mainProvision = exampleParagraphsOnly])
      (simp_all add: exampleParagraphsOnly_fields truthy_exampleParagraphsOnly)
  show ?thesis using 1 2 3 by (simp add: ascii_def)
qed

section \<open>Properties of the cache key\<close>

lemma typeName_chars: "list_all (\<lambda>c. isSafeChar c \<or> c = 46) (typeName t)"
  by (cases t) (simp_all add: ascii_def isSafeChar_def)

lemma sanitized_safe: "list_all isSafeChar (map (\<lambda>c. if isSafeChar c then c else 95) s)"
  by (induction s) (simp_all add: isSafeChar_def)

lemma sanitized_chars:
  "list_all (\<lambda>c. isSafeChar c \<or> c = 46) (map (\<lambda>c. if isSafeChar c then c else 95) s)"
  by (induction s) (simp_all add: isSafeChar_def)

lemma literal_chars:
  "list_all (\<lambda>c. isSafeChar c \<or> c = 46) (ascii ''_'')"
  "list_all (\<lambda>c. isSafeChar c \<or> c = 46) (ascii ''.json'')"
  by (simp_all add: ascii_def isSafeChar_def)

lemma getCacheKey_chars:
  "list_all (\<lambda>c. isSafeChar c \<or> c = 46) (getCacheKey (typeName t) i)"
  unfolding getCacheKey_def Let_def
  by (simp only: list_all_append typeName_chars sanitized_chars literal_chars simp_thms)

lemma getCacheKey_no_separator:
  "47 \<notin> set (getCacheKey (typeName t) i) \<and> 92 \<notin> set (getCacheKey (typeName t) i)"
proof -
  have "\<And>c. c \<in> set (getCacheKey (typeName t) i) \<Longrightarrow> isSafeChar c \<or> c = 46"
    using getCacheKey_chars [of t i] by (simp add: list_all_iff)
  moreover have "\<not> (isSafeChar 47 \<or> (47::nat) = 46)" "\<not> (isSafeChar 92 \<or> (92::nat) = 46)"
    by (simp_all add: isSafeChar_def)
  ultimately show ?thesis by blast
qed

lemma getCacheKey_length: "6 \<le> length (getCacheKey type i)"
  by (simp add: getCacheKey_def Let_def ascii_def)

lemma getCacheKey_last: "last (getCacheKey type i) = 110"
  by (simp add: getCacheKey_def Let_def ascii_def)

lemma getCacheKey_plain: "plainSegment (getCacheKey (typeName t) i)"
proof -
  have "getCacheKey (typeName t) i \<noteq> []" "getCacheKey (typeName t) i \<noteq> ascii ''.''"
    "getCacheKey (typeName t) i \<noteq> ascii ''..''"
    using getCacheKey_length [of "typeName t" i] by (auto simp: ascii_def)
  then show ?thesis using getCacheKey_no_separator [of t i] by (simp add: plainSegment_def)
qed

lemma splitOn_no_sep: "sep \<notin> set s \<Longrightarrow> splitOn sep s = [s]"
  by (induction s) auto

lemma splitOn_append_sep: "sep \<notin> set s \<Longrightarrow> splitOn sep (s @ sep # t) = s # splitOn sep t"
  by (induction s) auto

lemma join_append_last: "segs \<noteq> [] \<Longrightarrow> join sep (segs @ [x]) = join sep segs @ sep @ x"
  by (induction sep segs rule: join.induct) auto

lemma splitOn_join:
  "segs \<noteq> [] \<Longrightarrow> \<forall>seg \<in> set segs. 47 \<notin> set seg \<Longrightarrow> splitOn 47 (join [47] segs) = segs"
proof (induction "[47::nat]" segs rule: join.induct)
  case 1
  then show ?case by simp
next
  case (2 x)
  then show ?case by (simp add: splitOn_no_sep)
next
  case (3 x y ys)
  then show ?case using splitOn_append_sep [of 47 x "join [47] (y # ys)"] by simp
qed

lemma normalizeSegments_plain:
  "\<forall>seg \<in> set segs. plainSegment seg \<Longrightarrow> normalizeSegments allow res segs = res @ segs"
  by (induction segs arbitrary: res) (auto simp: plainSegment_def)

lemma join_nonempty: "segs \<noteq> [] \<Longrightarrow> \<forall>seg \<in> set segs. seg \<noteq> [] \<Longrightarrow> join sep segs \<noteq> []"
  by (induction sep segs rule: join.induct) auto

lemma posixJoin_plain:
  assumes segs: "segs \<noteq> []" "\<forall>seg \<in> set segs. plainSegment seg"
    and dir: "dir = [47] @ join [47] segs"
    and key: "plainSegment key" "last key \<noteq> 47"
  shows "posixJoin dir key = dir @ [47] @ key"
proof -
  have k: "key \<noteq> []" using key by (simp add: plainSegment_def)
  have d: "dir \<noteq> []" using dir by simp
  have joined: "join [47] (filter (\<lambda>arg. arg \<noteq> []) [dir, key]) = dir @ [47] @ key"
    using k d by simp
  have all: "\<forall>seg \<in> set (segs @ [key]). plainSegment seg" using segs key by simp
  then have noslash: "\<forall>seg \<in> set (segs @ [key]). 47 \<notin> set seg" by (simp add: plainSegment_def)
  have path: "dir @ [47] @ key = 47 # join [47] (segs @ [key])"
    using dir join_append_last [OF segs(1), of "[47]" key] by simp
  have split: "splitOn 47 (dir @ [47] @ key) = [] # (segs @ [key])"
    unfolding path using splitOn_join [of "segs @ [key]"] noslash by simp
  have norm: "normalizeSegments False [] (splitOn 47 (dir @ [47] @ key)) = segs @ [key]"
    unfolding split using normalizeSegments_plain [OF all, of False "[]"] by simp
  have ne: "join [47] (segs @ [key]) \<noteq> []"
    using join_nonempty [of "segs @ [key]" "[47]"] all by (simp add: plainSegment_def)
  define joined where "joined = dir @ [47] @ key"
  have j1: "joined \<noteq> []" by (simp add: joined_def)
  have j2: "hd joined = 47" using dir by (simp add: joined_def)
  have j3: "last joined \<noteq> 47" using key(2) k by (simp add: joined_def)
  have j4: "join [47] (normalizeSegments False [] (splitOn 47 joined)) = join [47] (segs @ [key])"
    using norm by (simp only: joined_def)
  have "posixNormalize joined = [47] @ join [47] (segs @ [key])"
    unfolding posixNormalize_def Let_def using j1 j2 j3 j4 ne by simp
  then have pn: "posixNormalize (dir @ [47] @ key) = dir @ [47] @ key"
    unfolding joined_def using path by simp
  have "posixJoin dir key = posixNormalize (dir @ [47] @ key)"
    unfolding posixJoin_def Let_def joined using d by (simp only: append_is_Nil_conv if_False simp_thms)
  then show ?thesis using pn by simp
qed

text \<open>
  Claim C10.  For each of the three categories and every identifier, the cache key is the
  category, an underscore, a string of the identifier's length made of characters from
  \<open>[A-Za-z0-9_-]\<close> only, and \<open>.json\<close>.  It holds no slash and no backslash and is
  neither empty, \<open>.\<close> nor \<open>..\<close>; so, for a cache directory that is an absolute path of
  plain segments, the cache path is the directory, a slash and the key: a file directly
  inside the cache directory.
\<close>

theorem getCacheKey_safe:
  "(\<exists>s. getCacheKey (typeName t) i = typeName t @ ascii ''_'' @ s @ ascii ''.json'' \<and>
        length s = length i \<and> list_all isSafeChar s) \<and>
   47 \<notin> set (getCacheKey (typeName t) i) \<and> 92 \<notin> set (getCacheKey (typeName t) i) \<and>
   getCacheKey (typeName t) i \<notin> {[], ascii ''.'', ascii ''..''} \<and>
   (segs \<noteq> [] \<and> list_all plainSegment segs \<and> cacheDir c = [47] @ join [47] segs \<longrightarrow>
      getCachePath c (getCacheKey (typeName t) i) = cacheDir c @ [47] @ getCacheKey (typeName t) i)"
proof (intro conjI impI)
  show "\<exists>s. getCacheKey (typeName t) i = typeName t @ ascii ''_'' @ s @ ascii ''.json'' \<and>
        length s = length i \<and> list_all isSafeChar s"
    using sanitized_safe [of i] by (intro exI [of _ "map (\<lambda>c. if isSafeChar c then c else 95) i"])
      (simp add: getCacheKey_def Let_def)
  show "47 \<notin> set (getCacheKey (typeName t) i)" "92 \<notin> set (getCacheKey (typeName t) i)"
    using getCacheKey_no_separator [of t i] by simp_all
  show "getCacheKey (typeName t) i \<notin> {[], ascii ''.'', ascii ''..''}"
    using getCacheKey_plain [of t i] by (simp add: plainSegment_def)
  show "getCachePath c (getCacheKey (typeName t) i) = cacheDir c @ [47] @ getCacheKey (typeName t) i"
    if a: "segs \<noteq> [] \<and> list_all plainSegment segs \<and> cacheDir c = [47] @ join [47] segs"
  proof -
    have 1: "segs \<noteq> []" and 2: "\<forall>seg \<in> set segs. plainSegment seg"
      and 3: "cacheDir c = [47] @ join [47] segs"
      using a by (simp_all add: list_all_iff)
    have 4: "last (getCacheKey (typeName t) i) \<noteq> 47"
      by (simp add: getCacheKey_last)
    show ?thesis
      unfolding getCachePath_def
      by (rule posixJoin_plain [OF 1 2 3 getCacheKey_plain 4])
  qed
qed

lemma exampleCacheDir_segments: "exampleCacheDir = [47] @ join [47] exampleCacheSegments"
  by (simp add: exampleCacheDir_def exampleCacheSegments_def ascii_def)

lemma exampleCacheSegments_plain: "exampleCacheSegments \<noteq> [] \<and> list_all plainSegment exampleCacheSegments"
  by (simp add: exampleCacheSegments_def plainSegment_def ascii_def)

lemma example_key:
  "getCacheKey (typeName lawText) (ascii ''../../etc/passwd'') = ascii ''lawText_______etc_passwd.json''"
  by (simp add: getCacheKey_def isSafeChar_def ascii_def)

text \<open>An identifier that tries to leave the directory, and where its entry is stored.\<close>

theorem getCacheKey_safe_witness:
  "getCacheKey (typeName lawText) (ascii ''../../etc/passwd'') = ascii ''lawText_______etc_passwd.json'' \<and>
   getCachePath (newLawCache exampleCacheDir None None None)
       (getCacheKey (typeName lawText) (ascii ''../../etc/passwd'')) =
     ascii ''/home/user/.cache/egov-law-mcp/lawText_______etc_passwd.json''"
proof -
  have c: "cacheDir (newLawCache exampleCacheDir None None None) = [47] @ join [47] exampleCacheSegments"
    by (simp add: newLawCache_def exampleCacheDir_segments)
  have "getCachePath (newLawCache exampleCacheDir None None None)
       (getCacheKey (typeName lawText) (ascii ''../../etc/passwd'')) =
     cacheDir (newLawCache exampleCacheDir None None None) @ [47] @
       getCacheKey (typeName lawText) (ascii ''../../etc/passwd'')"
    using getCacheKey_safe [of lawText "ascii ''../../etc/passwd''" exampleCacheSegments
        "newLawCache exampleCacheDir None None None"] exampleCacheSegments_plain c
    by blast
  then have "getCachePath (newLawCache exampleCacheDir None None None)
       (getCacheKey (typeName lawText) (ascii ''../../etc/passwd'')) =
     exampleCacheDir @ [47] @ ascii ''lawText_______etc_passwd.json''"
    by (simp only: example_key) (simp add: newLawCache_def)
  moreover have "exampleCacheDir @ [47] @ ascii ''lawText_______etc_passwd.json'' =
      ascii ''/home/user/.cache/egov-law-mcp/lawText_______etc_passwd.json''"
    by (simp add: exampleCacheDir_def ascii_def)
  ultimately show ?thesis using example_key by (simp only: simp_thms)
qed

section \<open>Properties of the cache operations\<close>

lemma ensureInitialized_result:
  assumes "ensureInitialized c fs = Inr c1"
  shows "c1 = c\<lparr>initialized := True\<rparr>"
  using assms by (auto simp: ensureInitialized_def split: if_splits option.splits)

lemma ensureInitialized_initialized:
  "initialized c \<Longrightarrow> ensureInitialized c fs = Inr c"
  by (simp add: ensureInitialized_def)

lemma ensureInitialized_idem:
  assumes "ensureInitialized c fs = Inr c1"
  shows "ensureInitialized c1 fs' = Inr c1"
  using ensureInitialized_result [OF assms] by (simp add: ensureInitialized_def)

lemma stringify_jsonValue:
  "jsonValue d \<Longrightarrow> stringify d = Inr (Some d)"
  "list_all jsonValue xs \<Longrightarrow> stringifyElements xs = Inr xs"
  "list_all (\<lambda>kv. jsonValue (snd kv)) kvs \<Longrightarrow> stringifyMembers kvs = Inr kvs"
  by (induction d and xs and kvs rule: stringify_stringifyElements_stringifyMembers.induct)
    (auto split: jsnum.splits)

lemma stringify_image:
  "stringify d = Inr (Some d') \<Longrightarrow> jsonValue d'"
  "stringifyElements xs = Inr ys \<Longrightarrow> list_all jsonValue ys"
  "stringifyMembers kvs = Inr ms \<Longrightarrow> list_all (\<lambda>kv. jsonValue (snd kv)) ms"
  by (induction d and xs and kvs arbitrary: d' and ys and ms
      rule: stringify_stringifyElements_stringifyMembers.induct)
    (auto split: jsnum.splits sum.splits option.splits)

lemma stringify_undefined: "(stringify d = Inr None) = (d = DUndefined)"
  by (cases d) (auto split: sum.splits)

lemma entryData_fixed:
  assumes "stringify d = Inr r"
  shows "(entryData r = d) = (jsonValue d \<or> d = DUndefined)"
proof (cases r)
  case None
  then have "d = DUndefined" using assms stringify_undefined by simp
  then show ?thesis using None by (simp add: entryData_def)
next
  case (Some d')
  have a: "d' = d \<Longrightarrow> jsonValue d" using stringify_image(1) assms Some by blast
  have b: "jsonValue d \<Longrightarrow> d' = d" using stringify_jsonValue(1) [of d] assms Some by simp
  have c: "d \<noteq> DUndefined" using assms Some by auto
  show ?thesis using a b c Some by (auto simp: entryData_def)
qed

lemma LawCache_set_result:
  assumes "LawCache_set c fs now type i d = Inr (c1, fs1)"
  shows "\<exists>r. stringify d = Inr r \<and> ensureInitialized c fs = Inr c1 \<and>
         fs1 = fs\<lparr>files := (files fs)(getCachePath c1 (getCacheKey (typeName type) i) \<mapsto>
                  EntryJson \<lparr> data = entryData r, cachedAt = now, expiresAt = now + getTtl c1 type \<rparr>)\<rparr>"
  using assms
  by (auto simp: LawCache_set_def writeFile_def Let_def split: sum.splits if_splits option.splits)

lemma getTtl_initialized: "getTtl (c\<lparr>initialized := b\<rparr>) type = getTtl c type"
  by (cases type) simp_all

lemma LawCache_get_entry:
  assumes "ensureInitialized c fs = Inr c1"
    and "readFile fs (getCachePath c1 (getCacheKey (typeName type) i)) = Inr (EntryJson entry)"
  shows "LawCache_get c fs now type i =
           Inr (if expiresAt entry < now then None else Some (data entry), c1, fs)"
  using assms by (simp add: LawCache_get_def Let_def)

text \<open>
  When the directory is there, the expiry is a time of \<open>Date\<close> and neither
  \<open>JSON.stringify\<close> nor the write fails, \<open>set\<close> completes and the file holds the new
  entry; when \<open>JSON.stringify\<close> throws, \<open>set\<close> throws and nothing is written.
\<close>

lemma set_completes:
  "ensureInitialized c fs = Inr c1 \<Longrightarrow> \<bar>now + getTtl c1 type\<bar> \<le> maxTime \<Longrightarrow>
   stringify d = Inr r \<Longrightarrow>
   writeFault fs (getCachePath c1 (getCacheKey (typeName type) i)) = None \<Longrightarrow>
   LawCache_set c fs now type i d =
     Inr (c1, fs\<lparr>files := (files fs)(getCachePath c1 (getCacheKey (typeName type) i) \<mapsto>
            EntryJson \<lparr> data = entryData r, cachedAt = now, expiresAt = now + getTtl c1 type \<rparr>)\<rparr>)"
  by (simp add: LawCache_set_def writeFile_def Let_def)

lemma set_stringify_throws:
  "ensureInitialized c fs = Inr c1 \<Longrightarrow> \<bar>now + getTtl c1 type\<bar> \<le> maxTime \<Longrightarrow>
   stringify d = Inl e \<Longrightarrow> LawCache_set c fs now type i d = Inl e"
  by (simp add: LawCache_set_def Let_def)

text \<open>
  Claim C3, as the source supports it.  When \<open>set\<close> has completed and the entry can be
  read, \<open>get\<close> for the same category and identifier returns, at every time up to the
  stored expiry \<open>now + ttl\<close> (so right away, the duration being no less than zero), what
  \<open>JSON.parse\<close> reads from the text that \<open>JSON.stringify\<close> wrote for the value.  That
  is the value itself exactly when the value is one that JSON can express, or
  \<open>undefined\<close>.  At every time after the expiry \<open>get\<close> returns a miss.
\<close>

theorem set_then_get:
  assumes "LawCache_set c fs now type i d = Inr (c1, fs1)"
    and "readFault fs1 (getCachePath c1 (getCacheKey (typeName type) i)) = None"
  shows "(jsonValue d \<or> d = DUndefined \<longrightarrow> now' \<le> now + getTtl c type \<longrightarrow>
            LawCache_get c1 fs1 now' type i = Inr (Some d, c1, fs1)) \<and>
         (now + getTtl c type < now' \<longrightarrow> LawCache_get c1 fs1 now' type i = Inr (None, c1, fs1)) \<and>
         (now' \<le> now + getTtl c type \<longrightarrow>
            (\<exists>r. stringify d = Inr r \<and>
                 LawCache_get c1 fs1 now' type i = Inr (Some (entryData r), c1, fs1) \<and>
                 (entryData r = d) = (jsonValue d \<or> d = DUndefined)))"
proof -
  let ?path = "getCachePath c1 (getCacheKey (typeName type) i)"
  from LawCache_set_result [OF assms(1)]
  obtain r where r: "stringify d = Inr r"
    and init: "ensureInitialized c fs = Inr c1"
    and fs1: "fs1 = fs\<lparr>files := (files fs)(?path \<mapsto>
                EntryJson \<lparr> data = entryData r, cachedAt = now, expiresAt = now + getTtl c1 type \<rparr>)\<rparr>"
    by blast
  let ?entry = "\<lparr> data = entryData r, cachedAt = now, expiresAt = now + getTtl c1 type \<rparr>"
  have ttl: "getTtl c1 type = getTtl c type"
    using ensureInitialized_result [OF init] by (simp add: getTtl_initialized)
  have init1: "ensureInitialized c1 fs1 = Inr c1" using init by (rule ensureInitialized_idem)
  have "files fs1 ?path = Some (EntryJson ?entry)" using fs1 by simp
  then have read: "readFile fs1 ?path = Inr (EntryJson ?entry)"
    using assms(2) by (simp add: readFile_def)
  have get: "LawCache_get c1 fs1 now' type i =
      Inr (if now + getTtl c type < now' then None else Some (entryData r), c1, fs1)"
    using LawCache_get_entry [OF init1 read, of now'] ttl by simp
  have fixed: "(entryData r = d) = (jsonValue d \<or> d = DUndefined)"
    using r by (rule entryData_fixed)
  show ?thesis
  proof (intro conjI impI)
    assume "jsonValue d \<or> d = DUndefined" and "now' \<le> now + getTtl c type"
    then show "LawCache_get c1 fs1 now' type i = Inr (Some d, c1, fs1)"
      using get fixed by simp
  next
    assume "now + getTtl c type < now'"
    then show "LawCache_get c1 fs1 now' type i = Inr (None, c1, fs1)"
      using get by simp
  next
    assume "now' \<le> now + getTtl c type"
    then have "LawCache_get c1 fs1 now' type i = Inr (Some (entryData r), c1, fs1)"
      using get by simp
    then show "\<exists>r. stringify d = Inr r \<and>
        LawCache_get c1 fs1 now' type i = Inr (Some (entryData r), c1, fs1) \<and>
        (entryData r = d) = (jsonValue d \<or> d = DUndefined)"
      using r fixed by blast
  qed
qed

lemma example_ready: "ensureInitialized exampleCacheReady fs = Inr exampleCacheReady"
  by (simp add: ensureInitialized_def exampleCacheReady_def)

lemma example_set:
  "LawCache_set exampleCache exampleDisk 1000 lawList (ascii ''q'') (DStr (ascii ''v'')) =
     Inr (exampleCacheReady, exampleDiskAfterSet)"
  by (simp add: LawCache_set_def ensureInitialized_def exampleCache_def newLawCache_def entryData_def
      exampleDisk_def writeFile_def exampleCacheReady_def exampleDiskAfterSet_def Let_def)

lemma example_readFault:
  "readFault exampleDiskAfterSet path = None"
  by (simp add: exampleDiskAfterSet_def exampleDisk_def)

lemma example_ttl: "getTtl exampleCache lawList = 86400000"
  by (simp add: exampleCache_def newLawCache_def)

text \<open>A string set at time 1000 for a day: read at once, and one millisecond after the day.\<close>

theorem set_then_get_witness:
  "LawCache_set exampleCache exampleDisk 1000 lawList (ascii ''q'') (DStr (ascii ''v'')) =
     Inr (exampleCacheReady, exampleDiskAfterSet) \<and>
   LawCache_get exampleCacheReady exampleDiskAfterSet 1000 lawList (ascii ''q'') =
     Inr (Some (DStr (ascii ''v'')), exampleCacheReady, exampleDiskAfterSet) \<and>
   LawCache_get exampleCacheReady exampleDiskAfterSet 86401001 lawList (ascii ''q'') =
     Inr (None, exampleCacheReady, exampleDiskAfterSet)"
proof -
  have json: "jsonValue (DStr (ascii ''v'')) \<or> DStr (ascii ''v'') = DUndefined" by simp
  have early: "(1000::int) \<le> 1000 + getTtl exampleCache lawList"
    and late: "1000 + getTtl exampleCache lawList < (86401001::int)"
    unfolding example_ttl by simp_all
  show ?thesis
    using example_set
      set_then_get [OF example_set example_readFault, of 1000, THEN conjunct1, THEN mp, OF json,
        THEN mp, OF early]
      set_then_get [OF example_set example_readFault, of 86401001, THEN conjunct2, THEN conjunct1,
        THEN mp, OF late]
    by (intro conjI)
qed

text \<open>
  The claim as stated gives back every value.  NaN is written as \<open>null\<close>: the \<open>get\<close>
  that follows the \<open>set\<close> at once returns \<open>null\<close>, not NaN.
\<close>

theorem set_then_get_nan_counterexample:
  "LawCache_set exampleCache exampleDisk 1000 lawList (ascii ''q'') (DNum NaN) =
     Inr (exampleCacheReady, exampleDiskAfterSetNaN) \<and>
   LawCache_get exampleCacheReady exampleDiskAfterSetNaN 1000 lawList (ascii ''q'') =
     Inr (Some DNull, exampleCacheReady, exampleDiskAfterSetNaN) \<and>
   DNull \<noteq> DNum NaN"
proof -
  have s: "LawCache_set exampleCache exampleDisk 1000 lawList (ascii ''q'') (DNum NaN) =
      Inr (exampleCacheReady, exampleDiskAfterSetNaN)"
    by (simp add: LawCache_set_def ensureInitialized_def exampleCache_def newLawCache_def entryData_def
        exampleDisk_def writeFile_def exampleCacheReady_def exampleDiskAfterSetNaN_def Let_def)
  have r: "readFile exampleDiskAfterSetNaN
      (getCachePath exampleCacheReady (getCacheKey (typeName lawList) (ascii ''q''))) =
      Inr (EntryJson \<lparr> data = DNull, cachedAt = 1000, expiresAt = 86401000 \<rparr>)"
    by (simp add: readFile_def exampleDiskAfterSetNaN_def exampleDisk_def)
  have "LawCache_get exampleCacheReady exampleDiskAfterSetNaN 1000 lawList (ascii ''q'') =
      Inr (if expiresAt \<lparr> data = DNull, cachedAt = 1000, expiresAt = 86401000 \<rparr> < 1000 then None
           else Some (data \<lparr> data = DNull, cachedAt = 1000, expiresAt = 86401000 \<rparr>),
           exampleCacheReady, exampleDiskAfterSetNaN)"
    by (rule LawCache_get_entry [OF example_ready r])
  then have g: "LawCache_get exampleCacheReady exampleDiskAfterSetNaN 1000 lawList (ascii ''q'') =
      Inr (Some DNull, exampleCacheReady, exampleDiskAfterSetNaN)"
    by simp
  show ?thesis using s g by simp
qed

text \<open>
  Claim C5, as the source supports it.  For a stored entry that can be read, \<open>get\<close> returns
  a miss at every time after \<open>expiresAt\<close> and the entry's data at every time up to and
  including \<open>expiresAt\<close>; whatever it returns, the disk it leaves is the disk it found.
\<close>

theorem get_lazy_expiry:
  assumes "ensureInitialized c fs = Inr c1"
    and "readFile fs (getCachePath c1 (getCacheKey (typeName type) i)) = Inr (EntryJson entry)"
  shows "(expiresAt entry < now \<longrightarrow> LawCache_get c fs now type i = Inr (None, c1, fs)) \<and>
         (now \<le> expiresAt entry \<longrightarrow> LawCache_get c fs now type i = Inr (Some (data entry), c1, fs)) \<and>
         (\<forall>r c' fs'. LawCache_get c fs now type i = Inr (r, c', fs') \<longrightarrow> fs' = fs)"
  using LawCache_get_entry [OF assms, of now] by simp

lemma example_read:
  "readFile exampleDiskAfterSet (getCachePath exampleCacheReady (getCacheKey (typeName lawList) (ascii ''q''))) =
     Inr (EntryJson \<lparr> data = DStr (ascii ''v''), cachedAt = 1000, expiresAt = 86401000 \<rparr>)"
  by (simp add: readFile_def exampleDiskAfterSet_def exampleDisk_def)

text \<open>The entry that expires at 86401000, read one millisecond after and one before.\<close>

theorem get_lazy_expiry_witness:
  "LawCache_get exampleCacheReady exampleDiskAfterSet 86401001 lawList (ascii ''q'') =
     Inr (None, exampleCacheReady, exampleDiskAfterSet) \<and>
   LawCache_get exampleCacheReady exampleDiskAfterSet 86400999 lawList (ascii ''q'') =
     Inr (Some (DStr (ascii ''v'')), exampleCacheReady, exampleDiskAfterSet)"
proof -
  let ?entry = "\<lparr> data = DStr (ascii ''v''), cachedAt = 1000, expiresAt = 86401000 \<rparr>"
  have stale: "expiresAt ?entry < 86401001" and fresh: "86400999 \<le> expiresAt ?entry" by simp_all
  have d: "data ?entry = DStr (ascii ''v'')" by simp
  show ?thesis
    using get_lazy_expiry [OF example_ready example_read, of 86401001, THEN conjunct1, THEN mp, OF stale]
      get_lazy_expiry [OF example_ready example_read, of 86400999, THEN conjunct2, THEN conjunct1,
        THEN mp, OF fresh]
    unfolding d by (intro conjI)
qed

text \<open>
  The claim as stated has a miss as soon as \<open>now >= expiresAt\<close>.  The source compares with
  \<open>expiresAt < now\<close>: read at its very expiry time, the entry is still returned.
\<close>

theorem get_at_expiry_counterexample:
  "readFile exampleDiskAfterSet (getCachePath exampleCacheReady (getCacheKey (typeName lawList) (ascii ''q''))) =
     Inr (EntryJson \<lparr> data = DStr (ascii ''v''), cachedAt = 1000, expiresAt = 86401000 \<rparr>) \<and>
   (86401000 :: int) \<ge> expiresAt \<lparr> data = DStr (ascii ''v''), cachedAt = 1000, expiresAt = 86401000 \<rparr> \<and>
   LawCache_get exampleCacheReady exampleDiskAfterSet 86401000 lawList (ascii ''q'') =
     Inr (Some (DStr (ascii ''v'')), exampleCacheReady, exampleDiskAfterSet)"
proof -
  let ?entry = "\<lparr> data = DStr (ascii ''v''), cachedAt = 1000, expiresAt = 86401000 \<rparr>"
  have "LawCache_get exampleCacheReady exampleDiskAfterSet 86401000 lawList (ascii ''q'') =
      Inr (if expiresAt ?entry < 86401000 then None else Some (data ?entry),
           exampleCacheReady, exampleDiskAfterSet)"
    by (rule LawCache_get_entry [OF example_ready example_read])
  then have "LawCache_get exampleCacheReady exampleDiskAfterSet 86401000 lawList (ascii ''q'') =
      Inr (Some (DStr (ascii ''v'')), exampleCacheReady, exampleDiskAfterSet)"
    by simp
  moreover have "(86401000 :: int) \<ge> expiresAt ?entry" by simp
  ultimately show ?thesis using example_read by (intro conjI)
qed

text \<open>
  Claim C4, as the source supports it.  Once the directory is initialized (the cache was
  initialized before, or \<open>mkdir\<close> succeeds or fails with \<open>EEXIST\<close>), \<open>get\<close> raises nothing
  and leaves the disk as it is, and a file that cannot be read or decoded gives a miss.
  A fault of \<open>mkdir\<close> other than \<open>EEXIST\<close> is raised again by \<open>ensureInitialized\<close> and
  reaches the caller of \<open>get\<close> and of \<open>set\<close>.
\<close>

theorem cache_faults:
  "(ensureInitialized c fs = Inr c1 \<longrightarrow>
      (\<exists>r. LawCache_get c fs now type i = Inr (r, c1, fs)) \<and>
      ((\<exists>e. readFile fs (getCachePath c1 (getCacheKey (typeName type) i)) = Inl e) \<or>
       readFile fs (getCachePath c1 (getCacheKey (typeName type) i)) = Inr Corrupt \<longrightarrow>
         LawCache_get c fs now type i = Inr (None, c1, fs))) \<and>
   (\<not> initialized c \<and> mkdirFault fs = Some e \<and> e \<noteq> EEXIST \<longrightarrow>
      LawCache_get c fs now type i = Inl (ErrnoException e) \<and>
      LawCache_set c fs now type i d = Inl (ErrnoException e))"
  by (auto simp: LawCache_get_def LawCache_set_def ensureInitialized_def Let_def)

text \<open>A corrupt file read by an initialized cache, and a \<open>set\<close> whose \<open>mkdir\<close> is denied.\<close>

lemma example_corrupt_read: "readFile exampleDiskCorrupt path = Inr Corrupt"
  by (simp add: readFile_def exampleDiskCorrupt_def exampleDisk_def)

lemma example_denied:
  "\<not> initialized exampleCache \<and> mkdirFault exampleDiskDenied = Some EACCES \<and> EACCES \<noteq> EEXIST"
  by (simp add: exampleDiskDenied_def exampleDisk_def exampleCache_def newLawCache_def)

theorem cache_faults_witness:
  "LawCache_get exampleCacheReady exampleDiskCorrupt 0 lawText (ascii ''x'') =
     Inr (None, exampleCacheReady, exampleDiskCorrupt) \<and>
   LawCache_set exampleCache exampleDiskDenied 0 lawText (ascii ''x'') (DStr (ascii ''v'')) =
     Inl (ErrnoException EACCES)"
proof -
  note a = cache_faults [of exampleCacheReady exampleDiskCorrupt exampleCacheReady 0 lawText
      "ascii ''x''" EACCES "DStr (ascii ''v'')", THEN conjunct1, THEN mp, OF example_ready,
      THEN conjunct2, THEN mp, OF disjI2, OF example_corrupt_read]
  note b = cache_faults [of exampleCache exampleDiskDenied exampleCache 0 lawText
      "ascii ''x''" EACCES "DStr (ascii ''v'')", THEN conjunct2, THEN mp, OF example_denied, THEN conjunct2]
  show ?thesis using a b by (intro conjI)
qed

text \<open>
  The claim as stated lets no fault reach the caller of \<open>get\<close>.  A permission error of
  \<open>mkdir\<close> does.
\<close>

theorem get_mkdir_fault_counterexample:
  "mkdirFault exampleDiskDenied = Some EACCES \<and>
   LawCache_get exampleCache exampleDiskDenied 0 lawText (ascii ''x'') = Inl (ErrnoException EACCES)"
  by (simp add: LawCache_get_def ensureInitialized_def exampleDiskDenied_def exampleDisk_def
      exampleCache_def newLawCache_def)

text \<open>\<open>set\<close> has no handler around \<open>writeFile\<close>: a fault of the write is raised to its caller.\<close>

lemma set_write_fault:
  "ensureInitialized c fs = Inr c1 \<Longrightarrow> \<bar>now + getTtl c1 type\<bar> \<le> maxTime \<Longrightarrow>
   stringify d = Inr r \<Longrightarrow>
   writeFault fs (getCachePath c1 (getCacheKey (typeName type) i)) = Some e \<Longrightarrow>
   LawCache_set c fs now type i d = Inl (ErrnoException e)"
  by (simp add: LawCache_set_def writeFile_def Let_def)

section \<open>Properties of the client\<close>

lemma fetchWithRetry_parser_throws:
  assumes "\<And>n. attemptOnce (net url n) parser = Inl message"
  shows "fetchWithRetry net url parser s =
           (Failure (ascii ''FETCH_ERROR'') message,
            s\<lparr>fetched := fetched s + 3, delays := delays s @ [1000, 2000]\<rparr>)"
  unfolding fetchWithRetry_def
  by (simp add: attemptLoop.simps [of net url parser 3] assms Let_def)

lemma fetchWithRetry_first_success:
  assumes "attemptOnce (net url (fetched s)) parser = Inr result"
  shows "fetchWithRetry net url parser s = (result, s\<lparr>fetched := fetched s + 1\<rparr>)"
  unfolding fetchWithRetry_def
  by (subst attemptLoop.simps) (simp add: assms Let_def)

text \<open>
  Claim C6 says that an article lookup whose document holds no matching Article ends at
  its first occurrence, without a retry or a further request.  The source does otherwise:
  \<open>getArticle\<close> throws from the callback it hands to \<open>fetchWithRetry\<close>, whose handler
  catches every error alike.  When the server answers each request with the same
  document and \<open>parseArticle\<close> finds no Article, the call sends four requests (one of
  \<open>getLawById\<close>, three of the lookup), waits 1000 and 2000 milliseconds in between,
  and ends as a \<open>FETCH_ERROR\<close>.
\<close>

theorem getArticle_missing_article:
  assumes "\<forall>n. net (lawdataUrl L lawId') n = Replies 200 statusText (Inr xml)"
    and "xmlParse L xml = Inr result"
    and "buildArticle L result article paragraph = None"
  shows "getArticle L net now lawId' article paragraph s =
           (Failure (ascii ''FETCH_ERROR'') (articleMissingMessage article),
            s\<lparr>fetched := fetched s + 4, delays := delays s @ [1000, 2000]\<rparr>)"
proof -
  let ?url = "lawdataUrl L lawId'"
  have r: "\<And>n. net ?url n = Replies 200 statusText (Inr xml)" using assms(1) by simp
  have law: "attemptOnce (net ?url (fetched s)) (parseLawText L now) =
      Inr (Success (buildLawText L now result))"
    by (simp add: r attemptOnce_def parseLawText_def assms(2))
  have first: "getLawById L net now lawId' s =
      (Success (buildLawText L now result), s\<lparr>fetched := fetched s + 1\<rparr>)"
    unfolding getLawById_def using law by (rule fetchWithRetry_first_success)
  have art: "\<And>n. attemptOnce (net ?url n) (articleParser L article paragraph) =
      Inl (articleMissingMessage article)"
    by (simp add: r attemptOnce_def articleParser_def parseArticle_def assms(2,3))
  show ?thesis
    unfolding getArticle_def first
    by (simp add: fetchWithRetry_parser_throws [of net ?url "articleParser L article paragraph", OF art])
qed

lemma findArticle_exampleNoArticles:
  "findArticle L (lawBodyOf exampleNoArticles) target = None"
proof -
  have a: "articlesInOrder exampleParagraphsOnly = []"
    by (simp add: articlesInOrder.simps [of exampleParagraphsOnly] exampleParagraphsOnly_fields)
  then have "findArticleRecursive L exampleParagraphsOnly (normalizeArticleNum target) = None"
    using findArticleRecursive_find [of exampleParagraphsOnly L "normalizeArticleNum target"] by simp
  then show ?thesis
    by (simp add: findArticle_def lawBodyOf_exampleNoArticles truthy_exampleParagraphsOnly)
qed

lemma buildArticle_exampleNoArticles:
  "buildArticle L exampleNoArticles target paragraph = None"
  using findArticle_exampleNoArticles [of L target]
  by (simp add: buildArticle_def lawBodyOf_def Let_def)

text \<open>The law without Articles, asked for its first Article.\<close>

theorem getArticle_missing_article_witness:
  "getArticle (exampleLib (\<lambda>xml. Inr exampleNoArticles)) exampleNetwork 0
       (ascii ''415AC0000000057'') (designator [19968]) None exampleSession =
     (Failure (ascii ''FETCH_ERROR'') (articleMissingMessage (designator [19968])),
      \<lparr> fetched = 4, delays = [1000, 2000] \<rparr>)"
proof -
  let ?L = "exampleLib (\<lambda>xml. Inr exampleNoArticles)"
  have n: "\<forall>n. exampleNetwork (lawdataUrl ?L (ascii ''415AC0000000057'')) n =
      Replies 200 (ascii ''OK'') (Inr (ascii ''<Law/>''))"
    by (simp add: exampleNetwork_def)
  have p: "xmlParse ?L (ascii ''<Law/>'') = Inr exampleNoArticles"
    by (simp add: exampleLib_def)
  have "getArticle ?L exampleNetwork 0 (ascii ''415AC0000000057'') (designator [19968]) None exampleSession =
      (Failure (ascii ''FETCH_ERROR'') (articleMissingMessage (designator [19968])),
       exampleSession\<lparr>fetched := fetched exampleSession + 4, delays := delays exampleSession @ [1000, 2000]\<rparr>)"
    using n p buildArticle_exampleNoArticles [of ?L "designator [19968]" None]
    by (rule getArticle_missing_article [of exampleNetwork ?L "ascii ''415AC0000000057''"
          "ascii ''OK''" "ascii ''<Law/>''" exampleNoArticles "designator [19968]" None 0 exampleSession])
  then show ?thesis by (simp add: exampleSession_def)
qed

end
